theory Spec2Isabelle
  imports Main "HOL-Library.Sublist" "HOL-Library.Multiset"
begin

section \<open>Python values\<close>

text \<open>
  The two scripts work on whatever \<^verbatim>\<open>yaml.safe_load\<close> and \<^verbatim>\<open>json.load\<close> hand
  them, so the values are modelled untyped, as Python has them. A Python \<^verbatim>\<open>str\<close> is a
  sequence of Unicode code points; \<open>lit\<close> turns the program's ASCII literals into one.
  Dictionaries keep insertion order and are association lists; their keys are the
  hashable scalars. Floats, timestamps, binary data and sets are left out of the value
  type.
\<close>

type_synonym pystr = "nat list"

definition lit :: "string \<Rightarrow> pystr" where
  "lit s = map of_char s"

datatype pykey = KNone | KBool bool | KInt int | KStr pystr

datatype pyval =
    PNone
  | PBool bool
  | PInt int
  | PStr pystr
  | PList "pyval list"
  | PDict "(pykey \<times> pyval) list"

type_synonym pydict = "(pykey \<times> pyval) list"

datatype exn =
    FileNotFoundError
  | YAMLError pystr
  | JSONDecodeError pystr
  | OSError
  | TypeError
  | AttributeError
  | KeyError
  | IndexError

text \<open>Python's \<^verbatim>\<open>==\<close> on keys: \<^verbatim>\<open>True == 1\<close> and \<^verbatim>\<open>False == 0\<close>.\<close>

fun key_eq :: "pykey \<Rightarrow> pykey \<Rightarrow> bool" where
  "key_eq KNone KNone = True"
| "key_eq (KBool a) (KBool b) = (a = b)"
| "key_eq (KBool a) (KInt j) = ((if a then 1 else 0) = j)"
| "key_eq (KInt i) (KBool b) = (i = (if b then 1 else 0))"
| "key_eq (KInt i) (KInt j) = (i = j)"
| "key_eq (KStr s) (KStr t) = (s = t)"
| "key_eq _ _ = False"

text \<open>Lists and dictionaries are unhashable: using one as a key raises TypeError.\<close>

fun as_key :: "pyval \<Rightarrow> pykey option" where
  "as_key PNone = Some KNone"
| "as_key (PBool b) = Some (KBool b)"
| "as_key (PInt i) = Some (KInt i)"
| "as_key (PStr s) = Some (KStr s)"
| "as_key (PList xs) = None"
| "as_key (PDict kvs) = None"

fun of_key :: "pykey \<Rightarrow> pyval" where
  "of_key KNone = PNone"
| "of_key (KBool b) = PBool b"
| "of_key (KInt i) = PInt i"
| "of_key (KStr s) = PStr s"

fun dict_get :: "pykey \<Rightarrow> (pykey \<times> 'v) list \<Rightarrow> 'v option" where
  "dict_get k [] = None"
| "dict_get k ((k', v) # kvs) = (if key_eq k k' then Some v else dict_get k kvs)"

text \<open>
  \<^verbatim>\<open>d[k] = v\<close>: an equal key keeps its place (and the key object first stored), a
  new key goes to the end.
\<close>

fun dict_set :: "pykey \<Rightarrow> 'v \<Rightarrow> (pykey \<times> 'v) list \<Rightarrow> (pykey \<times> 'v) list" where
  "dict_set k v [] = [(k, v)]"
| "dict_set k v ((k', v') # kvs) =
     (if key_eq k k' then (k', v) # kvs else (k', v') # dict_set k v kvs)"

text \<open>Python's \<^verbatim>\<open>==\<close> on values; dictionaries compare without regard to order.\<close>

fun py_eq :: "pyval \<Rightarrow> pyval \<Rightarrow> bool" where
  "py_eq PNone PNone = True"
| "py_eq (PBool a) (PBool b) = (a = b)"
| "py_eq (PBool a) (PInt j) = ((if a then 1 else 0) = j)"
| "py_eq (PInt i) (PBool b) = (i = (if b then 1 else 0))"
| "py_eq (PInt i) (PInt j) = (i = j)"
| "py_eq (PStr s) (PStr t) = (s = t)"
| "py_eq (PList xs) (PList ys) = list_all2 py_eq xs ys"
| "py_eq (PDict xs) (PDict ys) =
     (length xs = length ys \<and>
      list_all (\<lambda>(k, v). list_ex (\<lambda>(k', w). key_eq k k' \<and> py_eq v w) ys) xs)"
| "py_eq _ _ = False"

text \<open>
  \<^verbatim>\<open>x in c\<close>. A list is searched with \<^verbatim>\<open>==\<close>, a dictionary by key (the operand is
  hashed first), a string for a substring (and only a string may be looked for);
  anything else is not a container.
\<close>

fun py_in :: "pyval \<Rightarrow> pyval \<Rightarrow> exn + bool" where
  "py_in x (PList ys) = Inr (list_ex (py_eq x) ys)"
| "py_in x (PDict kvs) =
     (case as_key x of None \<Rightarrow> Inl TypeError | Some k \<Rightarrow> Inr (dict_get k kvs \<noteq> None))"
| "py_in (PStr t) (PStr s) = Inr (sublist t s)"
| "py_in x c = Inl TypeError"

text \<open>
  \<^verbatim>\<open>c[k]\<close>. A dictionary is read by key; a list or a string takes an integer
  (a bool counts as one), negative from the end.
\<close>

definition py_index :: "'a list \<Rightarrow> int \<Rightarrow> exn + 'a" where
  "py_index xs i =
     (let n = int (length xs); j = (if i < 0 then i + n else i)
      in if 0 \<le> j \<and> j < n then Inr (xs ! nat j) else Inl IndexError)"

fun py_getitem :: "pyval \<Rightarrow> pyval \<Rightarrow> exn + pyval" where
  "py_getitem (PDict kvs) k =
     (case as_key k of None \<Rightarrow> Inl TypeError
      | Some k' \<Rightarrow> (case dict_get k' kvs of None \<Rightarrow> Inl KeyError | Some v \<Rightarrow> Inr v))"
| "py_getitem (PList xs) (PInt i) = py_index xs i"
| "py_getitem (PList xs) (PBool b) = py_index xs (if b then 1 else 0)"
| "py_getitem (PStr s) (PInt i) = map_sum id (\<lambda>c. PStr [c]) (py_index s i)"
| "py_getitem (PStr s) (PBool b) = map_sum id (\<lambda>c. PStr [c]) (py_index s (if b then 1 else 0))"
| "py_getitem c k = Inl TypeError"

text \<open>\<^verbatim>\<open>d[k] = v\<close> on a dictionary, with the hash of the key taken first.\<close>

definition py_setitem :: "pydict \<Rightarrow> pyval \<Rightarrow> pyval \<Rightarrow> exn + pydict" where
  "py_setitem d k v =
     (case as_key k of None \<Rightarrow> Inl TypeError | Some k' \<Rightarrow> Inr (dict_set k' v d))"

text \<open>\<^verbatim>\<open>for x in c\<close>: the elements of a list, the keys of a dictionary, the characters of a string.\<close>

fun py_iter :: "pyval \<Rightarrow> exn + pyval list" where
  "py_iter (PList xs) = Inr xs"
| "py_iter (PDict kvs) = Inr (map (\<lambda>kv. of_key (fst kv)) kvs)"
| "py_iter (PStr s) = Inr (map (\<lambda>c. PStr [c]) s)"
| "py_iter c = Inl TypeError"

text \<open>\<^verbatim>\<open>c.get(k, default)\<close>: only a dictionary has the method.\<close>

fun py_get :: "pyval \<Rightarrow> pystr \<Rightarrow> pyval \<Rightarrow> exn + pyval" where
  "py_get (PDict kvs) k dflt =
     Inr (case dict_get (KStr k) kvs of None \<Rightarrow> dflt | Some v \<Rightarrow> v)"
| "py_get c k dflt = Inl AttributeError"

text \<open>\<^verbatim>\<open>c.items()\<close>.\<close>

fun py_items :: "pyval \<Rightarrow> exn + pydict" where
  "py_items (PDict kvs) = Inr kvs"
| "py_items c = Inl AttributeError"

text \<open>Truth value of an object in a condition.\<close>

fun truthy :: "pyval \<Rightarrow> bool" where
  "truthy PNone = False"
| "truthy (PBool b) = b"
| "truthy (PInt i) = (i \<noteq> 0)"
| "truthy (PStr s) = (s \<noteq> [])"
| "truthy (PList xs) = (xs \<noteq> [])"
| "truthy (PDict kvs) = (kvs \<noteq> [])"

section \<open>Output\<close>

text \<open>
  A printed line is kept as the f-string that made it: literal text and the values
  formatted into it. \<open>Val v\<close> is the text of \<^verbatim>\<open>str(v)\<close>, \<open>Quoted v\<close> the same
  between single quotes, \<open>Exc e\<close> the message of an exception, \<open>Uni\<close> a literal
  outside ASCII, \<open>JsonText j\<close> the text \<^verbatim>\<open>json.dumps\<close> writes for the document
  \<open>j\<close>, \<open>YamlText v\<close> what \<^verbatim>\<open>yaml.dump\<close> writes for \<open>v\<close>.
\<close>

datatype json =
    JNull
  | JBool bool
  | JNum int
  | JStr pystr
  | JArr "json list"
  | JObj "(pystr \<times> json) list"

datatype frag =
    Lit string
  | Uni pystr
  | Val pyval
  | Quoted pyval
  | Exc exn
  | JsonText json
  | YamlText pyval

type_synonym line = "frag list"

record outcome =
  status :: nat
  stdout :: "line list"
  stderr :: "line list"
  written :: "(pyval \<times> line) list"

text \<open>An exception nobody catches: the interpreter prints the traceback and exits with 1.\<close>

definition uncaught :: "exn \<Rightarrow> line list \<Rightarrow> line list \<Rightarrow> outcome" where
  "uncaught e out err =
     \<lparr>status = 1, stdout = out,
      stderr = err @ [[Lit ''Traceback (most recent call last):'', Exc e]], written = []\<rparr>"

section \<open>The validator (validate\_properties.py)\<close>

datatype vresult = Valid | Invalid line

fun valid :: "vresult \<Rightarrow> bool" where
  "valid Valid = True"
| "valid (Invalid msg) = False"

record results =
  overall_valid :: bool
  property_results :: "(pykey \<times> vresult) list"
  missing_required :: "pykey list"
  errors :: "line list"
  unknown_properties :: "pykey list"

text \<open>
  \<open>load_config\<close> and \<open>load_properties_from_json\<close> get what opening and parsing the file
  gave: the parsed value or the exception raised. Both print their diagnostic with a
  plain \<^verbatim>\<open>print\<close>, to standard output, and exit with 1; any other exception is not
  caught.
\<close>

definition load_config :: "pystr \<Rightarrow> exn + pyval \<Rightarrow> outcome + pyval" where
  "load_config config_file loaded =
     (case loaded of
        Inr c \<Rightarrow> Inr c
      | Inl FileNotFoundError \<Rightarrow>
          Inl \<lparr>status = 1,
               stdout = [[Lit ''::error::Configuration file '', Quoted (PStr config_file),
                          Lit '' not found'']],
               stderr = [], written = []\<rparr>
      | Inl (YAMLError m) \<Rightarrow>
          Inl \<lparr>status = 1,
               stdout = [[Lit ''::error::Invalid YAML in configuration file: '',
                          Exc (YAMLError m)]],
               stderr = [], written = []\<rparr>
      | Inl e \<Rightarrow> Inl (uncaught e [] []))"

definition init :: "pystr \<Rightarrow> exn + pyval \<Rightarrow> outcome + pyval" where
  "init config_file loaded =
     (case load_config config_file loaded of
        Inl out \<Rightarrow> Inl out
      | Inr config \<Rightarrow>
          (case py_get config (lit ''validation_rules'') (PDict []) of
             Inl e \<Rightarrow> Inl (uncaught e [] [])
           | Inr rules \<Rightarrow> Inr rules))"

fun is_dict :: "pyval \<Rightarrow> bool" where
  "is_dict (PDict kvs) = True"
| "is_dict v = False"

definition load_properties_from_json :: "pystr \<Rightarrow> exn + pyval \<Rightarrow> outcome + pydict" where
  "load_properties_from_json json_file loaded =
     (case loaded of
        Inr data \<Rightarrow> Inr (case data of PDict kvs \<Rightarrow> kvs | _ \<Rightarrow> [])
      | Inl FileNotFoundError \<Rightarrow>
          Inl \<lparr>status = 1,
               stdout = [[Lit ''::error::Properties file '', Quoted (PStr json_file),
                          Lit '' not found'']],
               stderr = [], written = []\<rparr>
      | Inl (JSONDecodeError m) \<Rightarrow>
          Inl \<lparr>status = 1,
               stdout = [[Lit ''::error::Invalid JSON in properties file: '',
                          Exc (JSONDecodeError m)]],
               stderr = [], written = []\<rparr>
      | Inl e \<Rightarrow> Inl (uncaught e [] []))"

definition validate_property :: "pyval \<Rightarrow> pyval \<Rightarrow> pyval \<Rightarrow> exn + vresult" where
  "validate_property validation_rules property_name property_value =
     (case py_in property_name validation_rules of
        Inl e \<Rightarrow> Inl e
      | Inr False \<Rightarrow>
          Inr (Invalid [Lit ''Property '', Quoted property_name,
                        Lit '' is not defined in validation rules''])
      | Inr True \<Rightarrow>
          (case py_getitem validation_rules property_name of
             Inl e \<Rightarrow> Inl e
           | Inr rule \<Rightarrow>
               (case py_get rule (lit ''valid_values'') (PList []) of
                  Inl e \<Rightarrow> Inl e
                | Inr valid_values \<Rightarrow>
                    (case py_in property_value valid_values of
                       Inl e \<Rightarrow> Inl e
                     | Inr False \<Rightarrow>
                         Inr (Invalid [Lit ''Property '', Quoted property_name,
                                       Lit '' has invalid value '', Quoted property_value,
                                       Lit ''. Valid values are: '', Val valid_values])
                     | Inr True \<Rightarrow> Inr Valid))))"

text \<open>The first loop of \<open>validate_all_properties\<close>: required rules without a property.\<close>

fun check_required :: "pydict \<Rightarrow> pydict \<Rightarrow> results \<Rightarrow> exn + results" where
  "check_required properties [] res = Inr res"
| "check_required properties ((property_name, rule) # rest) res =
     (case py_get rule (lit ''required'') (PBool False) of
        Inl e \<Rightarrow> Inl e
      | Inr required \<Rightarrow>
          (if truthy required \<and> dict_get property_name properties = None
           then check_required properties rest
                  (res\<lparr>missing_required := missing_required res @ [property_name],
                       overall_valid := False\<rparr>)
           else check_required properties rest res))"

text \<open>The second loop: the properties that were provided.\<close>

definition record_result :: "pykey \<Rightarrow> vresult \<Rightarrow> results \<Rightarrow> results" where
  "record_result property_name validation_result res =
     (let res' = res\<lparr>property_results :=
                       dict_set property_name validation_result (property_results res)\<rparr>
      in (case validation_result of
            Valid \<Rightarrow> res'
          | Invalid msg \<Rightarrow> res'\<lparr>overall_valid := False, errors := errors res' @ [msg]\<rparr>))"

fun validate_provided :: "pyval \<Rightarrow> pydict \<Rightarrow> results \<Rightarrow> exn + results" where
  "validate_provided validation_rules [] res = Inr res"
| "validate_provided validation_rules ((property_name, property_value) # rest) res =
     (case py_in (of_key property_name) validation_rules of
        Inl e \<Rightarrow> Inl e
      | Inr False \<Rightarrow>
          validate_provided validation_rules rest
            (res\<lparr>unknown_properties := unknown_properties res @ [property_name]\<rparr>)
      | Inr True \<Rightarrow>
          (case validate_property validation_rules (of_key property_name) property_value of
             Inl e \<Rightarrow> Inl e
           | Inr validation_result \<Rightarrow>
               validate_provided validation_rules rest
                 (record_result property_name validation_result res)))"

definition results0 :: results where
  "results0 = \<lparr>overall_valid = True, property_results = [], missing_required = [],
               errors = [], unknown_properties = []\<rparr>"

definition validate_all_properties :: "pyval \<Rightarrow> pydict \<Rightarrow> exn + results" where
  "validate_all_properties validation_rules properties =
     (case py_items validation_rules of
        Inl e \<Rightarrow> Inl e
      | Inr items \<Rightarrow>
          (case check_required properties items results0 of
             Inl e \<Rightarrow> Inl e
           | Inr res \<Rightarrow> validate_provided validation_rules properties res))"

text \<open>
  \<open>print_github_actions_output\<close>, as the lines it prints and the exception that stopped
  it, if any. The two marks are U+2705 and U+274C.
\<close>

fun extracted_lines :: "pydict \<Rightarrow> line list" where
  "extracted_lines [] = []"
| "extracted_lines ((prop_name, prop_value) # rest) =
     [Lit ''   '', Val (of_key prop_name), Lit '': '', Val prop_value] # extracted_lines rest"

fun result_lines :: "pydict \<Rightarrow> (pykey \<times> vresult) list \<Rightarrow> line list" where
  "result_lines properties [] = []"
| "result_lines properties ((prop_name, result) # rest) =
     [Lit ''   '', Uni (if valid result then [9989] else [10060]), Lit '' '',
      Val (of_key prop_name), Lit '': '',
      Val (case dict_get prop_name properties of None \<Rightarrow> PStr (lit ''N/A'') | Some v \<Rightarrow> v)]
     # result_lines properties rest"

fun unknown_lines :: "pydict \<Rightarrow> pykey list \<Rightarrow> line list \<times> exn option" where
  "unknown_lines properties [] = ([], None)"
| "unknown_lines properties (prop # rest) =
     (case dict_get prop properties of
        None \<Rightarrow> ([], Some KeyError)
      | Some v \<Rightarrow>
          (case unknown_lines properties rest of
             (ls, e) \<Rightarrow>
               ([Lit ''::warning::Unknown property '', Quoted (of_key prop),
                 Lit '' with value '', Quoted v, Lit '' (not in validation rules)''] # ls, e)))"

fun missing_lines :: "pyval \<Rightarrow> pykey list \<Rightarrow> line list \<times> exn option" where
  "missing_lines validation_rules [] = ([], None)"
| "missing_lines validation_rules (prop # rest) =
     (case py_getitem validation_rules (of_key prop) of
        Inl e \<Rightarrow> ([], Some e)
      | Inr rule \<Rightarrow>
          (case py_get rule (lit ''valid_values'') (PList []) of
             Inl e \<Rightarrow> ([], Some e)
           | Inr valid_values \<Rightarrow>
               (case missing_lines validation_rules rest of
                  (ls, e) \<Rightarrow>
                    ([Lit ''::error::Missing required property '', Quoted (of_key prop),
                      Lit ''. Valid values are: '', Val valid_values] # ls, e))))"

definition summary_lines :: "results \<Rightarrow> line list" where
  "summary_lines res =
     map (\<lambda>error. Lit ''::error::'' # error) (errors res) @
     [[Lit ''::endgroup::'']] @
     [if overall_valid res
      then [Lit ''::notice::Property validation completed successfully'']
      else [Lit ''::error::Property validation failed with '',
            Val (PInt (int (length (errors res) + length (missing_required res)))),
            Lit '' error(s)'']]"

definition print_github_actions_output ::
    "pyval \<Rightarrow> results \<Rightarrow> pydict \<Rightarrow> line list \<times> exn option" where
  "print_github_actions_output validation_rules res properties =
     (let head =
            [[Lit ''::group::Property Validation Report''],
             (if overall_valid res
              then [Uni [9989], Lit '' VALIDATION PASSED'']
              else [Uni [10060], Lit '' VALIDATION FAILED'']),
             [Lit ''\<newline>Extracted Properties ('', Val (PInt (int (length properties))),
              Lit ''):'']] @
            extracted_lines properties @
            (if property_results res \<noteq> []
             then [Lit ''\<newline>Property Validation Results:'']
                  # result_lines properties (property_results res)
             else [])
      in (case unknown_lines properties (unknown_properties res) of
            (us, Some e) \<Rightarrow> (head @ us, Some e)
          | (us, None) \<Rightarrow>
              (case missing_lines validation_rules (missing_required res) of
                 (ms, Some e) \<Rightarrow> (head @ us @ ms, Some e)
               | (ms, None) \<Rightarrow> (head @ us @ ms @ summary_lines res, None))))"

text \<open>
  \<open>main\<close> of the validator. Its arguments are the two paths and what loading each file
  gives.
\<close>

definition validate_main ::
    "pystr \<Rightarrow> pystr \<Rightarrow> exn + pyval \<Rightarrow> exn + pyval \<Rightarrow> outcome" where
  "validate_main config properties_file config_loaded properties_loaded =
     (case init config config_loaded of
        Inl out \<Rightarrow> out
      | Inr validation_rules \<Rightarrow>
          (case load_properties_from_json properties_file properties_loaded of
             Inl out \<Rightarrow> out
           | Inr properties \<Rightarrow>
               (let warned = (if properties = []
                              then [[Lit ''::warning::No properties found in input file'']]
                              else [])
                in (case validate_all_properties validation_rules properties of
                      Inl e \<Rightarrow> uncaught e warned []
                    | Inr res \<Rightarrow>
                        (case print_github_actions_output validation_rules res properties of
                           (ls, Some e) \<Rightarrow> uncaught e (warned @ ls) []
                         | (ls, None) \<Rightarrow>
                             (let exit_code = (if overall_valid res then 0 else 1)
                              in \<lparr>status = exit_code,
                                  stdout = warned @ ls @
                                    [[Lit ''::debug::Exiting with code '',
                                      Val (PInt (int exit_code))]],
                                  stderr = [], written = []\<rparr>))))))"

section \<open>The extractor (extract\_api\_properties.py)\<close>

text \<open>The loop over the records of \<^verbatim>\<open>additionalProperties\<close>.\<close>

fun extract_records :: "pyval list \<Rightarrow> pydict \<Rightarrow> exn + pydict" where
  "extract_records [] properties = Inr properties"
| "extract_records (prop # rest) properties =
     (case py_in (PStr (lit ''name'')) prop of
        Inl e \<Rightarrow> Inl e
      | Inr False \<Rightarrow> extract_records rest properties
      | Inr True \<Rightarrow>
          (case py_in (PStr (lit ''value'')) prop of
             Inl e \<Rightarrow> Inl e
           | Inr False \<Rightarrow> extract_records rest properties
           | Inr True \<Rightarrow>
               (case py_getitem prop (PStr (lit ''value'')) of
                  Inl e \<Rightarrow> Inl e
                | Inr v \<Rightarrow>
                    (case py_getitem prop (PStr (lit ''name'')) of
                       Inl e \<Rightarrow> Inl e
                     | Inr n \<Rightarrow>
                         (case py_setitem properties n v of
                            Inl e \<Rightarrow> Inl e
                          | Inr properties' \<Rightarrow> extract_records rest properties')))))"

text \<open>The body of the \<^verbatim>\<open>try\<close> block, after the file has been parsed to \<open>data\<close>.\<close>

definition extract_body :: "pyval \<Rightarrow> exn + pydict" where
  "extract_body data =
     (case py_in (PStr (lit ''data'')) data of
        Inl e \<Rightarrow> Inl e
      | Inr False \<Rightarrow> Inr []
      | Inr True \<Rightarrow>
          (case py_getitem data (PStr (lit ''data'')) of
             Inl e \<Rightarrow> Inl e
           | Inr d \<Rightarrow>
               (case py_in (PStr (lit ''additionalProperties'')) d of
                  Inl e \<Rightarrow> Inl e
                | Inr False \<Rightarrow> Inr []
                | Inr True \<Rightarrow>
                    (case py_getitem d (PStr (lit ''additionalProperties'')) of
                       Inl e \<Rightarrow> Inl e
                     | Inr props \<Rightarrow>
                         (case py_iter props of
                            Inl e \<Rightarrow> Inl e
                          | Inr items \<Rightarrow> extract_records items [])))))"

text \<open>
  The three handlers, in the order of the \<^verbatim>\<open>except\<close> clauses: each prints to the
  error stream and exits with 1. \<open>err\<close> is what the error stream already holds.
\<close>

definition handle :: "pystr \<Rightarrow> line list \<Rightarrow> exn \<Rightarrow> outcome" where
  "handle yaml_file_path err e =
     \<lparr>status = 1, stdout = [],
      stderr = err @
        [case e of
           FileNotFoundError \<Rightarrow> [Lit ''Error: File not found: '', Val (PStr yaml_file_path)]
         | YAMLError m \<Rightarrow> [Lit ''Error parsing YAML file: '', Exc e]
         | _ \<Rightarrow> [Lit ''Error: '', Exc e]],
      written = []\<rparr>"

definition extract_properties_from_yaml ::
    "pystr \<Rightarrow> exn + pyval \<Rightarrow> line list \<Rightarrow> outcome + pydict" where
  "extract_properties_from_yaml yaml_file_path loaded err =
     (case loaded of
        Inl e \<Rightarrow> Inl (handle yaml_file_path err e)
      | Inr data \<Rightarrow>
          (case extract_body data of
             Inl e \<Rightarrow> Inl (handle yaml_file_path err e)
           | Inr properties \<Rightarrow> Inr properties))"

subsection \<open>Formatting\<close>

text \<open>
  \<^verbatim>\<open>str.upper\<close> and \<^verbatim>\<open>str.lower\<close> map each code point to a string. The table
  holds the ASCII letters and U+212A KELVIN SIGN, which is its own upper case and whose
  lower case is the ASCII letter k; every other code point is mapped to itself, as
  Python maps the uncased ones. The cased letters beyond these are not tabulated, and
  nothing below is stated about them.
\<close>

definition cp_upper :: "nat \<Rightarrow> pystr" where
  "cp_upper c = (if 97 \<le> c \<and> c \<le> 122 then [c - 32] else [c])"

definition cp_lower :: "nat \<Rightarrow> pystr" where
  "cp_lower c = (if 65 \<le> c \<and> c \<le> 90 then [c + 32] else if c = 8490 then [107] else [c])"

definition upper :: "pystr \<Rightarrow> pystr" where
  "upper s = concat (map cp_upper s)"

definition lower :: "pystr \<Rightarrow> pystr" where
  "lower s = concat (map cp_lower s)"

text \<open>\<^verbatim>\<open>k.upper()\<close> on a key: only a string has the method.\<close>

fun key_upper :: "pykey \<Rightarrow> exn + pystr" where
  "key_upper (KStr s) = Inr (upper s)"
| "key_upper k = Inl AttributeError"

fun key_lower :: "pykey \<Rightarrow> exn + pystr" where
  "key_lower (KStr s) = Inr (lower s)"
| "key_lower k = Inl AttributeError"

text \<open>The list comprehensions of the \<^verbatim>\<open>env\<close> and \<^verbatim>\<open>github\<close> formats.\<close>

fun assignments :: "(pykey \<Rightarrow> exn + pystr) \<Rightarrow> pydict \<Rightarrow> exn + line list" where
  "assignments f [] = Inr []"
| "assignments f ((k, v) # rest) =
     (case f k of
        Inl e \<Rightarrow> Inl e
      | Inr k' \<Rightarrow>
          (case assignments f rest of
             Inl e \<Rightarrow> Inl e
           | Inr ls \<Rightarrow> Inr ([Val (PStr k'), Lit ''='', Val v] # ls)))"

text \<open>\<^verbatim>\<open>'\n'.join(lines)\<close>.\<close>

fun join_lines :: "line list \<Rightarrow> line" where
  "join_lines [] = []"
| "join_lines [l] = l"
| "join_lines (l # ls) = l @ Lit ''\<newline>'' # join_lines ls"

text \<open>
  What \<^verbatim>\<open>json.dumps\<close> does to the data before it writes text: a dictionary
  becomes an object whose member names are strings, so a key that is not a string is
  replaced by its JSON spelling. \<open>json_loads\<close> is the decoder: an object becomes a
  dictionary, a repeated member name keeping its last value.
\<close>

fun dec_nat :: "nat \<Rightarrow> pystr" where
  "dec_nat n = (if n < 10 then [48 + n] else dec_nat (n div 10) @ [48 + n mod 10])"

declare dec_nat.simps [simp del]

definition dec :: "int \<Rightarrow> pystr" where
  "dec i = (if i < 0 then 45 # dec_nat (nat (- i)) else dec_nat (nat i))"

fun json_key :: "pykey \<Rightarrow> pystr" where
  "json_key (KStr s) = s"
| "json_key (KBool True) = lit ''true''"
| "json_key (KBool False) = lit ''false''"
| "json_key KNone = lit ''null''"
| "json_key (KInt i) = dec i"

fun json_dumps :: "pyval \<Rightarrow> json" where
  "json_dumps PNone = JNull"
| "json_dumps (PBool b) = JBool b"
| "json_dumps (PInt i) = JNum i"
| "json_dumps (PStr s) = JStr s"
| "json_dumps (PList xs) = JArr (map json_dumps xs)"
| "json_dumps (PDict kvs) = JObj (map (\<lambda>(k, v). (json_key k, json_dumps v)) kvs)"


text \<open>
  \<open>output_properties\<close>: the content for the format, then the file or standard output.
  The result is what was printed and what was written.
\<close>

definition output_content :: "pydict \<Rightarrow> pystr \<Rightarrow> exn + line" where
  "output_content properties output_format =
     (if output_format = lit ''json'' then Inr [JsonText (json_dumps (PDict properties))]
      else if output_format = lit ''env''
        then map_sum id join_lines (assignments key_upper properties)
      else if output_format = lit ''yaml'' then Inr [YamlText (PDict properties)]
      else if output_format = lit ''github''
        then map_sum id join_lines (assignments key_lower properties)
      else if output_format = lit ''console''
        then Inr (join_lines (map (\<lambda>(k, v). [Val (of_key k), Lit '': '', Val v]) properties))
      else Inr [])"

definition output_properties ::
    "pydict \<Rightarrow> pystr \<Rightarrow> pyval \<Rightarrow> exn + line list \<times> (pyval \<times> line) list" where
  "output_properties properties output_format output_file =
     (case output_content properties output_format of
        Inl e \<Rightarrow> Inl e
      | Inr content \<Rightarrow>
          (if truthy output_file
           then Inr ([[Lit ''Properties written to: '', Val output_file]],
                     [(output_file, content)])
           else Inr ([content], [])))"

text \<open>
  \<open>main\<close> of the extractor: the path, the format, the output file (None when not given),
  the verbose flag, and what loading the file gives.
\<close>

definition extract_main ::
    "pystr \<Rightarrow> pystr \<Rightarrow> pyval \<Rightarrow> bool \<Rightarrow> exn + pyval \<Rightarrow> outcome" where
  "extract_main yaml_file format output verbose loaded =
     (let err0 = (if verbose
                  then [[Lit ''Extracting properties from: '', Val (PStr yaml_file)]]
                  else [])
      in (case extract_properties_from_yaml yaml_file loaded err0 of
            Inl out \<Rightarrow> out
          | Inr properties \<Rightarrow>
              (if properties = []
               then \<lparr>status = 0, stdout = [],
                     stderr = err0 @
                       [[Lit ''No properties found in additionalProperties section'']],
                     written = []\<rparr>
               else
                 (let err1 = err0 @
                        (if verbose
                         then [[Lit ''Found '', Val (PInt (int (length properties))),
                                Lit '' properties'']]
                         else [])
                  in (case output_properties properties format output of
                        Inl e \<Rightarrow> uncaught e [] err1
                      | Inr (out, files) \<Rightarrow>
                          \<lparr>status = 0, stdout = out, stderr = err1, written = files\<rparr>)))))"

section \<open>Vocabulary of the statements\<close>

text \<open>
  A rule is required when \<^verbatim>\<open>rule.get("required", False)\<close> is true. A value passes
  the membership check of its rule when it is found in
  \<^verbatim>\<open>rule.get("valid_values", [])\<close>. The verdict the specification describes: no
  required rule names an absent property, and every provided property that has a rule
  passes the check of that rule.
\<close>

definition rule_required :: "pyval \<Rightarrow> bool" where
  "rule_required rule =
     (case py_get rule (lit ''required'') (PBool False) of Inl e \<Rightarrow> False | Inr r \<Rightarrow> truthy r)"

definition value_ok :: "pydict \<Rightarrow> pykey \<Rightarrow> pyval \<Rightarrow> bool" where
  "value_ok rules k v =
     (case dict_get k rules of
        None \<Rightarrow> False
      | Some rule \<Rightarrow>
          (case py_get rule (lit ''valid_values'') (PList []) of
             Inl e \<Rightarrow> False
           | Inr valid_values \<Rightarrow> py_in v valid_values = Inr True))"

definition verdict :: "pydict \<Rightarrow> pydict \<Rightarrow> bool" where
  "verdict rules properties =
     ((\<forall>(k, rule) \<in> set rules. rule_required rule \<longrightarrow> dict_get k properties \<noteq> None) \<and>
      (\<forall>(k, v) \<in> set properties. dict_get k rules \<noteq> None \<longrightarrow> value_ok rules k v))"

text \<open>A rule of the documented shape: a mapping whose \<^verbatim>\<open>valid_values\<close>, if given, is a list.\<close>

fun rule_wf :: "pyval \<Rightarrow> bool" where
  "rule_wf (PDict r) =
     (case dict_get (KStr (lit ''valid_values'')) r of
        None \<Rightarrow> True
      | Some (PList vs) \<Rightarrow> True
      | Some v \<Rightarrow> False)"
| "rule_wf v = False"

definition rules_wf :: "pydict \<Rightarrow> bool" where
  "rules_wf rules = (\<forall>(k, rule) \<in> set rules. rule_wf rule)"

text \<open>What one provided property adds to the error list and to the per-property results.\<close>

definition step_errors :: "pydict \<Rightarrow> pykey \<times> pyval \<Rightarrow> line list" where
  "step_errors rules p =
     (if dict_get (fst p) rules = None then []
      else (case validate_property (PDict rules) (of_key (fst p)) (snd p) of
              Inr (Invalid m) \<Rightarrow> [m] | _ \<Rightarrow> []))"

definition step_results ::
    "pydict \<Rightarrow> (pykey \<times> vresult) list \<Rightarrow> pykey \<times> pyval \<Rightarrow> (pykey \<times> vresult) list" where
  "step_results rules d p =
     (if dict_get (fst p) rules = None then d
      else (case validate_property (PDict rules) (of_key (fst p)) (snd p) of
              Inr vr \<Rightarrow> dict_set (fst p) vr d | Inl e \<Rightarrow> d))"

text \<open>A small rule document, used for the concrete runs.\<close>

definition example_rules :: pydict where
  "example_rules =
     [(KStr (lit ''env''),
       PDict [(KStr (lit ''required''), PBool True),
              (KStr (lit ''valid_values''), PList [PStr (lit ''dev''), PStr (lit ''prod'')])])]"

definition example_config :: pyval where
  "example_config = PDict [(KStr (lit ''validation_rules''), PDict example_rules)]"

text \<open>
  A record of \<^verbatim>\<open>additionalProperties\<close> as the API definition documents it: a
  mapping with a string under \<^verbatim>\<open>name\<close> and some value under \<^verbatim>\<open>value\<close>.
  \<open>pairs_of\<close> reads the names and values off a list of such records, \<open>store\<close> is the
  assignment the loop makes for one of them.
\<close>

fun record_pair :: "pyval \<Rightarrow> (pystr \<times> pyval) option" where
  "record_pair (PDict r) =
     (case dict_get (KStr (lit ''name'')) r of
        Some (PStr n) \<Rightarrow>
          (case dict_get (KStr (lit ''value'')) r of Some v \<Rightarrow> Some (n, v) | None \<Rightarrow> None)
      | _ \<Rightarrow> None)"
| "record_pair item = None"

definition all_records :: "pyval list \<Rightarrow> bool" where
  "all_records items = (\<forall>item \<in> set items. record_pair item \<noteq> None)"

definition pairs_of :: "pyval list \<Rightarrow> (pystr \<times> pyval) list" where
  "pairs_of items = map (\<lambda>item. the (record_pair item)) items"

definition store :: "pydict \<Rightarrow> pystr \<times> pyval \<Rightarrow> pydict" where
  "store d p = dict_set (KStr (fst p)) (snd p) d"

text \<open>A dictionary whose keys are strings, no two alike.\<close>

fun is_str_key :: "pykey \<Rightarrow> bool" where
  "is_str_key (KStr s) = True"
| "is_str_key k = False"

definition str_keys :: "pydict \<Rightarrow> bool" where
  "str_keys d = (distinct (map fst d) \<and> (\<forall>k \<in> set (map fst d). is_str_key k))"

text \<open>A document with the given records at the expected place, and one record.\<close>

definition document_with :: "pyval list \<Rightarrow> pyval" where
  "document_with items =
     PDict [(KStr (lit ''data''),
             PDict [(KStr (lit ''additionalProperties''), PList items)])]"

definition named :: "string \<Rightarrow> string \<Rightarrow> pyval" where
  "named n v = PDict [(KStr (lit ''name''), PStr (lit n)), (KStr (lit ''value''), PStr (lit v))]"


text \<open>
  The keys of an \<^verbatim>\<open>env\<close> or \<^verbatim>\<open>github\<close> output: the strings formatted in front of
  an equals sign. \<open>names_of\<close> lists the string keys of a dictionary; \<open>ascii_names\<close>
  holds when every key is a string of ASCII characters.
\<close>

fun assigned_keys :: "line \<Rightarrow> pystr list" where
  "assigned_keys (Val (PStr k) # Lit s # rest) =
     (if s = ''='' then [k] else []) @ assigned_keys rest"
| "assigned_keys (f # rest) = assigned_keys rest"
| "assigned_keys [] = []"

definition names_of :: "pydict \<Rightarrow> pystr list" where
  "names_of d = concat (map (\<lambda>kv. case fst kv of KStr s \<Rightarrow> [s] | _ \<Rightarrow> []) d)"

definition ascii_names :: "pydict \<Rightarrow> bool" where
  "ascii_names d =
     (\<forall>kv \<in> set d. case fst kv of KStr s \<Rightarrow> (\<forall>c \<in> set s. c < 128) | _ \<Rightarrow> False)"

section \<open>Keys and dictionaries\<close>

lemma key_eq_refl [simp]: "key_eq k k"
  by (cases k) simp_all

lemma key_eq_sym: "key_eq a b = key_eq b a"
  by (cases a; cases b) auto

lemma key_eq_trans: "key_eq a b \<Longrightarrow> key_eq b c \<Longrightarrow> key_eq a c"
  by (cases a; cases b; cases c) (auto split: if_splits)

lemma as_key_of_key [simp]: "as_key (of_key k) = Some k"
  by (cases k) simp_all

lemma dict_get_cong_key: "key_eq a b \<Longrightarrow> dict_get a d = dict_get b d"
proof (induction d)
  case Nil
  then show ?case by simp
next
  case (Cons kv d)
  obtain k v where kv: "kv = (k, v)" by (cases kv)
  have "key_eq a k = key_eq b k"
    using Cons.prems key_eq_trans key_eq_sym by blast
  with Cons kv show ?case by simp
qed

lemma dict_get_None_iff: "dict_get k d = None \<longleftrightarrow> (\<forall>k' \<in> fst ` set d. \<not> key_eq k k')"
  by (induction d) (auto split: if_splits)

lemma dict_get_Some_mem: "dict_get k d = Some v \<Longrightarrow> \<exists>k'. (k', v) \<in> set d \<and> key_eq k k'"
  by (induction d) (auto split: if_splits)

lemma dict_get_mem: "(k, v) \<in> set d \<Longrightarrow> dict_get k d \<noteq> None"
  by (auto simp: dict_get_None_iff intro!: bexI[of _ "(k, v)"])

lemma lit_eq_iff [simp]: "lit a = lit b \<longleftrightarrow> a = b"
proof -
  have "inj (of_char :: char \<Rightarrow> nat)"
    by (rule inj_of_char)
  then show ?thesis
    by (simp add: lit_def inj_map_eq_map)
qed

section \<open>The loops of the validator\<close>

lemma check_required_Inr:
  "check_required props items res0 = Inr res \<Longrightarrow>
     overall_valid res =
       (overall_valid res0 \<and>
        (\<forall>(k, rule) \<in> set items. rule_required rule \<longrightarrow> dict_get k props \<noteq> None)) \<and>
     property_results res = property_results res0 \<and>
     errors res = errors res0 \<and>
     unknown_properties res = unknown_properties res0 \<and>
     set (missing_required res) =
       set (missing_required res0) \<union>
       {k. \<exists>rule. (k, rule) \<in> set items \<and> rule_required rule \<and> dict_get k props = None} \<and>
     (\<forall>(k, rule) \<in> set items. is_dict rule)"
proof (induction items arbitrary: res0)
  case Nil
  then show ?case by simp
next
  case (Cons item items)
  obtain k rule where item: "item = (k, rule)" by (cases item)
  from Cons.prems item obtain r where r: "py_get rule (lit ''required'') (PBool False) = Inr r"
    by (auto split: sum.splits)
  then have d: "is_dict rule" by (cases rule) auto
  have rr: "rule_required rule = truthy r" by (simp add: rule_required_def r)
  show ?case
  proof (cases "truthy r \<and> dict_get k props = None")
    case True
    with Cons.prems item r
    have "check_required props items
            (res0\<lparr>missing_required := missing_required res0 @ [k], overall_valid := False\<rparr>) = Inr res"
      by simp
    from Cons.IH[OF this] True rr d item show ?thesis by auto
  next
    case False
    with Cons.prems item r have "check_required props items res0 = Inr res"
      by auto
    from Cons.IH[OF this] False rr d item show ?thesis by auto
  qed
qed

lemma check_required_total:
  "\<forall>(k, rule) \<in> set items. is_dict rule \<Longrightarrow> \<exists>res. check_required props items res0 = Inr res"
proof (induction items arbitrary: res0)
  case Nil
  then show ?case by simp
next
  case (Cons item items)
  obtain k rule where item: "item = (k, rule)" by (cases item)
  with Cons.prems obtain r where "rule = PDict r" by (cases rule) auto
  with Cons item show ?case by auto
qed

lemma validate_property_dict:
  assumes "dict_get k rules = Some rule"
  shows "validate_property (PDict rules) (of_key k) v =
     (case py_get rule (lit ''valid_values'') (PList []) of
        Inl e \<Rightarrow> Inl e
      | Inr valid_values \<Rightarrow>
          (case py_in v valid_values of
             Inl e \<Rightarrow> Inl e
           | Inr False \<Rightarrow>
               Inr (Invalid [Lit ''Property '', Quoted (of_key k),
                             Lit '' has invalid value '', Quoted v,
                             Lit ''. Valid values are: '', Val valid_values])
           | Inr True \<Rightarrow> Inr Valid))"
  using assms by (simp add: validate_property_def)

lemma validate_property_valid:
  assumes "dict_get k rules \<noteq> None" "validate_property (PDict rules) (of_key k) v = Inr vr"
  shows "valid vr = value_ok rules k v"
proof -
  from assms(1) obtain rule where rule: "dict_get k rules = Some rule" by auto
  from assms(2) show ?thesis
    unfolding validate_property_dict[OF rule] value_ok_def rule
    by (auto split: sum.splits bool.splits)
qed

lemma record_result_fields:
  "overall_valid (record_result k vr res) = (overall_valid res \<and> valid vr)"
  "missing_required (record_result k vr res) = missing_required res"
  "unknown_properties (record_result k vr res) = unknown_properties res"
  "property_results (record_result k vr res) = dict_set k vr (property_results res)"
  "errors (record_result k vr res) = errors res @ (case vr of Valid \<Rightarrow> [] | Invalid m \<Rightarrow> [m])"
  by (cases vr; simp add: record_result_def Let_def)+

lemma validate_provided_Inr:
  "validate_provided (PDict rules) props res0 = Inr res \<Longrightarrow>
     overall_valid res =
       (overall_valid res0 \<and>
        (\<forall>(k, v) \<in> set props. dict_get k rules \<noteq> None \<longrightarrow> value_ok rules k v)) \<and>
     missing_required res = missing_required res0 \<and>
     unknown_properties res =
       unknown_properties res0 @ map fst (filter (\<lambda>(k, v). dict_get k rules = None) props)"
proof (induction props arbitrary: res0)
  case Nil
  then show ?case by simp
next
  case (Cons p props)
  obtain k v where p: "p = (k, v)" by (cases p)
  show ?case
  proof (cases "dict_get k rules = None")
    case True
    with Cons.prems p
    have "validate_provided (PDict rules) props
            (res0\<lparr>unknown_properties := unknown_properties res0 @ [k]\<rparr>) = Inr res"
      by simp
    from Cons.IH[OF this] True p show ?thesis by auto
  next
    case False
    with Cons.prems p obtain vr where
      vr: "validate_property (PDict rules) (of_key k) v = Inr vr" and
      rest: "validate_provided (PDict rules) props (record_result k vr res0) = Inr res"
      by (auto split: sum.splits)
    from validate_property_valid[OF False vr] Cons.IH[OF rest] False p
    show ?thesis by (auto simp: record_result_fields)
  qed
qed

lemma rule_wf_check:
  assumes "rule_wf rule"
  shows "\<exists>vs. py_get rule (lit ''valid_values'') (PList []) = Inr (PList vs)"
proof (cases rule)
  case (PDict r)
  with assms show ?thesis
    by (auto split: option.splits pyval.splits)
qed (use assms in simp_all)

lemma rule_wf_is_dict: "rule_wf rule \<Longrightarrow> is_dict rule"
  by (cases rule) simp_all

lemma validate_property_total:
  assumes "dict_get k rules = Some rule" "rule_wf rule"
  shows "\<exists>vr. validate_property (PDict rules) (of_key k) v = Inr vr"
proof -
  from rule_wf_check[OF assms(2)] obtain vs where
    "py_get rule (lit ''valid_values'') (PList []) = Inr (PList vs)" by blast
  then show ?thesis
    unfolding validate_property_dict[OF assms(1)] by (simp split: bool.splits)
qed

lemma validate_provided_total:
  assumes "\<forall>(k, rule) \<in> set rules. rule_wf rule"
  shows "\<exists>res. validate_provided (PDict rules) props res0 = Inr res"
proof (induction props arbitrary: res0)
  case Nil
  then show ?case by simp
next
  case (Cons p props)
  obtain k v where p: "p = (k, v)" by (cases p)
  show ?case
  proof (cases "dict_get k rules")
    case None
    with Cons p show ?thesis by simp
  next
    case (Some rule)
    then obtain k' where "(k', rule) \<in> set rules" using dict_get_Some_mem by fastforce
    with assms have "rule_wf rule" by auto
    from validate_property_total[OF Some this] obtain vr where
      "validate_property (PDict rules) (of_key k) v = Inr vr" by blast
    with Cons Some p show ?thesis by simp
  qed
qed

lemma unknown_lines_ok:
  "\<forall>k \<in> set ks. dict_get k props \<noteq> None \<Longrightarrow> snd (unknown_lines props ks) = None"
  by (induction ks) (auto split: prod.splits)

lemma missing_lines_ok:
  assumes "\<forall>(k, rule) \<in> set rules. is_dict rule"
  shows "\<forall>k \<in> set ks. dict_get k rules \<noteq> None \<Longrightarrow> snd (missing_lines (PDict rules) ks) = None"
proof (induction ks)
  case Nil
  then show ?case by simp
next
  case (Cons k ks)
  then obtain rule where rule: "dict_get k rules = Some rule" by auto
  then obtain k' where "(k', rule) \<in> set rules" using dict_get_Some_mem by fastforce
  with assms obtain r where "rule = PDict r" by (cases rule) auto
  with Cons rule show ?case by (auto split: prod.splits)
qed

lemma validate_all_Inr:
  assumes "validate_all_properties (PDict rules) props = Inr res"
  shows "overall_valid res = verdict rules props"
    and "unknown_properties res = map fst (filter (\<lambda>(k, v). dict_get k rules = None) props)"
    and "set (missing_required res) =
           {k. \<exists>rule. (k, rule) \<in> set rules \<and> rule_required rule \<and> dict_get k props = None}"
    and "\<forall>(k, rule) \<in> set rules. is_dict rule"
proof -
  from assms obtain res1 where
    1: "check_required props rules results0 = Inr res1" and
    2: "validate_provided (PDict rules) props res1 = Inr res"
    by (auto simp: validate_all_properties_def split: sum.splits)
  note a = check_required_Inr[OF 1] and b = validate_provided_Inr[OF 2]
  from a b show "overall_valid res = verdict rules props"
    by (simp add: verdict_def results0_def)
  from a b show "unknown_properties res = map fst (filter (\<lambda>(k, v). dict_get k rules = None) props)"
    by (simp add: results0_def)
  from a b show "set (missing_required res) =
           {k. \<exists>rule. (k, rule) \<in> set rules \<and> rule_required rule \<and> dict_get k props = None}"
    by (simp add: results0_def)
  from a show "\<forall>(k, rule) \<in> set rules. is_dict rule" by simp
qed

lemma validate_all_total:
  assumes "\<forall>(k, rule) \<in> set rules. rule_wf rule"
  shows "\<exists>res. validate_all_properties (PDict rules) props = Inr res"
proof -
  from assms have "\<forall>(k, rule) \<in> set rules. is_dict rule"
    using rule_wf_is_dict by auto
  from check_required_total[OF this] obtain res1 where
    "check_required props rules results0 = Inr res1" by blast
  with validate_provided_total[OF assms] show ?thesis
    by (simp add: validate_all_properties_def)
qed

lemma print_ok:
  assumes "validate_all_properties (PDict rules) props = Inr res"
  shows "snd (print_github_actions_output (PDict rules) res props) = None"
proof -
  note v = validate_all_Inr[OF assms]
  have "\<forall>k \<in> set (unknown_properties res). dict_get k props \<noteq> None"
    unfolding v(2) using dict_get_mem by fastforce
  then have u: "snd (unknown_lines props (unknown_properties res)) = None"
    by (rule unknown_lines_ok)
  have "\<forall>k \<in> set (missing_required res). dict_get k rules \<noteq> None"
    unfolding v(3) using dict_get_mem by fastforce
  then have m: "snd (missing_lines (PDict rules) (missing_required res)) = None"
    by (rule missing_lines_ok[OF v(4)])
  from u m show ?thesis
    by (auto simp: print_github_actions_output_def Let_def split: prod.splits option.splits)
qed

lemma validate_main_status:
  assumes "init config config_loaded = Inr (PDict rules)"
    and "load_properties_from_json properties_file properties_loaded = Inr props"
    and "validate_all_properties (PDict rules) props = Inr res"
  shows "status (validate_main config properties_file config_loaded properties_loaded) =
           (if overall_valid res then 0 else 1)"
proof -
  from print_ok[OF assms(3)] obtain ls where
    "print_github_actions_output (PDict rules) res props = (ls, None)"
    by (cases "print_github_actions_output (PDict rules) res props") auto
  with assms show ?thesis
    by (simp add: validate_main_def Let_def)
qed

lemma validate_provided_fields:
  "validate_provided (PDict rules) props res0 = Inr res \<Longrightarrow>
     errors res = errors res0 @ concat (map (step_errors rules) props) \<and>
     property_results res = foldl (step_results rules) (property_results res0) props"
proof (induction props arbitrary: res0)
  case Nil
  then show ?case by simp
next
  case (Cons p props)
  obtain k v where p: "p = (k, v)" by (cases p)
  show ?case
  proof (cases "dict_get k rules = None")
    case True
    with Cons.prems p
    have "validate_provided (PDict rules) props
            (res0\<lparr>unknown_properties := unknown_properties res0 @ [k]\<rparr>) = Inr res"
      by simp
    from Cons.IH[OF this] True p show ?thesis
      by (simp add: step_errors_def step_results_def)
  next
    case False
    with Cons.prems p obtain vr where
      vr: "validate_property (PDict rules) (of_key k) v = Inr vr" and
      rest: "validate_provided (PDict rules) props (record_result k vr res0) = Inr res"
      by (auto split: sum.splits)
    from False obtain rule where "dict_get k rules = Some rule" by auto
    with Cons.IH[OF rest] p vr show ?thesis
      by (cases vr) (simp_all add: record_result_fields step_errors_def step_results_def)
  qed
qed

lemma validate_all_fields:
  assumes "validate_all_properties (PDict rules) props = Inr res"
  shows "errors res = concat (map (step_errors rules) props)"
    and "property_results res = foldl (step_results rules) [] props"
proof -
  from assms obtain res1 where
    1: "check_required props rules results0 = Inr res1" and
    2: "validate_provided (PDict rules) props res1 = Inr res"
    by (auto simp: validate_all_properties_def split: sum.splits)
  note a = check_required_Inr[OF 1] and b = validate_provided_fields[OF 2]
  from a b show "errors res = concat (map (step_errors rules) props)"
    by (simp add: results0_def)
  from a b show "property_results res = foldl (step_results rules) [] props"
    by (simp add: results0_def)
qed

lemma map_fst_dict_set:
  "map fst (dict_set k v d) = (if dict_get k d = None then map fst d @ [k] else map fst d)"
  by (induction d) (auto split: if_splits)

lemma keys_dict_set: "set (map fst (dict_set k v d)) \<subseteq> insert k (set (map fst d))"
  by (auto simp: map_fst_dict_set simp del: set_map)

lemma keys_step_results:
  "set (map fst (foldl (step_results rules) d props)) \<subseteq>
     set (map fst d) \<union> {k. dict_get k rules \<noteq> None}"
proof (induction props arbitrary: d)
  case Nil
  then show ?case by simp
next
  case (Cons p props)
  have "set (map fst (step_results rules d p)) \<subseteq> set (map fst d) \<union> {k. dict_get k rules \<noteq> None}"
  proof (cases "dict_get (fst p) rules = None")
    case True
    then show ?thesis by (simp add: step_results_def)
  next
    case False
    show ?thesis
    proof (cases "validate_property (PDict rules) (of_key (fst p)) (snd p)")
      case (Inl e)
      with False show ?thesis by (simp add: step_results_def)
    next
      case (Inr vr)
      from False obtain rule where "dict_get (fst p) rules = Some rule" by auto
      with Inr have "step_results rules d p = dict_set (fst p) vr d"
        by (simp add: step_results_def)
      with keys_dict_set[of "fst p" vr d] False show ?thesis
        by auto
    qed
  qed
  with Cons.IH[of "step_results rules d p"] show ?case
    by (simp only: foldl_Cons) blast
qed

lemma dict_get_without:
  assumes "\<not> key_eq k' k"
  shows "dict_get k' (pre @ (k, v) # post) = dict_get k' (pre @ post)"
  using assms by (induction pre) auto

lemma verdict_without_unknown:
  assumes "dict_get k rules = None"
  shows "verdict rules (pre @ (k, v) # post) = verdict rules (pre @ post)"
proof -
  have 1: "dict_get (fst p) (pre @ (k, v) # post) = dict_get (fst p) (pre @ post)"
    if "p \<in> set rules" for p
  proof -
    from that have "fst p \<in> fst ` set rules" by simp
    with assms have "\<not> key_eq k (fst p)"
      unfolding dict_get_None_iff by blast
    then have "\<not> key_eq (fst p) k" by (simp add: key_eq_sym)
    then show ?thesis by (rule dict_get_without)
  qed
  have a: "(\<forall>(k', rule) \<in> set rules. rule_required rule \<longrightarrow>
                 dict_get k' (pre @ (k, v) # post) \<noteq> None) \<longleftrightarrow>
            (\<forall>(k', rule) \<in> set rules. rule_required rule \<longrightarrow>
                 dict_get k' (pre @ post) \<noteq> None)"
    by (rule ball_cong[OF refl]) (simp add: case_prod_beta 1)
  have b: "(\<forall>(k', v') \<in> set (pre @ (k, v) # post).
               dict_get k' rules \<noteq> None \<longrightarrow> value_ok rules k' v') \<longleftrightarrow>
           (\<forall>(k', v') \<in> set (pre @ post).
               dict_get k' rules \<noteq> None \<longrightarrow> value_ok rules k' v')"
    using assms by (simp add: ball_Un)
  show ?thesis
    unfolding verdict_def a b ..
qed

section \<open>The validator: claims\<close>

text \<open>
  C1. For a rule mapping whose rules have the documented shape and any loaded
  PropertySet, \<open>validate_all_properties\<close> returns a report, its overall verdict is
  valid exactly when no required rule names an absent property and every provided
  property that has a rule passes the membership check, and the exit status of the
  validator is 0 when the verdict is valid and 1 otherwise.
\<close>

theorem verdict_and_exit_status:
  assumes "init config config_loaded = Inr (PDict rules)"
    and "load_properties_from_json properties_file properties_loaded = Inr properties"
    and "rules_wf rules"
  shows "\<exists>res. validate_all_properties (PDict rules) properties = Inr res \<and>
           (overall_valid res \<longleftrightarrow> verdict rules properties) \<and>
           status (validate_main config properties_file config_loaded properties_loaded) =
             (if overall_valid res then 0 else 1)"
proof -
  from validate_all_total[OF assms(3)[unfolded rules_wf_def]] obtain res where
    res: "validate_all_properties (PDict rules) properties = Inr res" by blast
  from validate_all_Inr(1)[OF res] validate_main_status[OF assms(1,2) res] res
  show ?thesis by blast
qed

theorem verdict_and_exit_status_witness:
  "init (lit ''rules.yaml'') (Inr example_config) = Inr (PDict example_rules) \<and>
   load_properties_from_json (lit ''p.json'')
       (Inr (PDict [(KStr (lit ''env''), PStr (lit ''prod'')),
                    (KStr (lit ''extra''), PStr (lit ''x''))])) =
     Inr [(KStr (lit ''env''), PStr (lit ''prod'')), (KStr (lit ''extra''), PStr (lit ''x''))] \<and>
   rules_wf example_rules \<and>
   verdict example_rules
     [(KStr (lit ''env''), PStr (lit ''prod'')), (KStr (lit ''extra''), PStr (lit ''x''))] \<and>
   (\<exists>res. validate_all_properties (PDict example_rules)
            [(KStr (lit ''env''), PStr (lit ''prod'')),
             (KStr (lit ''extra''), PStr (lit ''x''))] = Inr res \<and>
          overall_valid res) \<and>
   status (validate_main (lit ''rules.yaml'') (lit ''p.json'') (Inr example_config)
             (Inr (PDict [(KStr (lit ''env''), PStr (lit ''prod'')),
                          (KStr (lit ''extra''), PStr (lit ''x''))]))) = 0"
proof -
  let ?ps = "[(KStr (lit ''env''), PStr (lit ''prod'')), (KStr (lit ''extra''), PStr (lit ''x''))]"
  have 1: "init (lit ''rules.yaml'') (Inr example_config) = Inr (PDict example_rules)"
    by (simp add: init_def load_config_def example_config_def)
  have 2: "load_properties_from_json (lit ''p.json'') (Inr (PDict ?ps)) = Inr ?ps"
    by (simp add: load_properties_from_json_def)
  have 3: "rules_wf example_rules"
    by (simp add: example_rules_def rules_wf_def)
  have 4: "verdict example_rules ?ps"
    by (simp add: verdict_def value_ok_def rule_required_def example_rules_def)
  from verdict_and_exit_status[OF 1 2 3] 4 obtain res where
    "validate_all_properties (PDict example_rules) ?ps = Inr res" "overall_valid res"
    "status (validate_main (lit ''rules.yaml'') (lit ''p.json'') (Inr example_config)
               (Inr (PDict ?ps))) = 0"
    by auto
  with 1 2 3 4 show ?thesis by blast
qed

text \<open>
  C2. When the rule of a property has no \<^verbatim>\<open>valid_values\<close> or an empty list, every
  value fails the check: \<open>validate_property\<close> returns the failure whose message
  names the property, the value and the empty list of accepted values, and a run over
  a PropertySet holding the property ends invalid with that message among the errors.
\<close>

theorem empty_valid_values_fail_every_value:
  assumes "dict_get k rules = Some (PDict rule)"
    and "dict_get (KStr (lit ''valid_values'')) rule = None \<or>
         dict_get (KStr (lit ''valid_values'')) rule = Some (PList [])"
  shows "validate_property (PDict rules) (of_key k) v =
           Inr (Invalid [Lit ''Property '', Quoted (of_key k),
                         Lit '' has invalid value '', Quoted v,
                         Lit ''. Valid values are: '', Val (PList [])]) \<and>
         ((k, v) \<in> set properties \<and>
          validate_all_properties (PDict rules) properties = Inr res \<longrightarrow>
            \<not> overall_valid res \<and>
            [Lit ''Property '', Quoted (of_key k),
             Lit '' has invalid value '', Quoted v,
             Lit ''. Valid values are: '', Val (PList [])] \<in> set (errors res))"
proof -
  let ?msg = "[Lit ''Property '', Quoted (of_key k), Lit '' has invalid value '', Quoted v,
               Lit ''. Valid values are: '', Val (PList [])]"
  from assms(2) have vv: "py_get (PDict rule) (lit ''valid_values'') (PList []) = Inr (PList [])"
    by auto
  have 1: "validate_property (PDict rules) (of_key k) v = Inr (Invalid ?msg)"
    unfolding validate_property_dict[OF assms(1)] vv by simp
  have 2: "\<not> overall_valid res \<and> ?msg \<in> set (errors res)"
    if mem: "(k, v) \<in> set properties"
      and res: "validate_all_properties (PDict rules) properties = Inr res"
  proof -
    from assms(1) 1 have "\<not> value_ok rules k v"
      using validate_property_valid[of k rules v "Invalid ?msg"] by simp
    with mem assms(1) have "\<not> verdict rules properties"
      unfolding verdict_def by force
    moreover have "?msg \<in> set (step_errors rules (k, v))"
      using assms(1) 1 by (simp add: step_errors_def)
    with mem have "?msg \<in> set (concat (map (step_errors rules) properties))"
      by auto
    ultimately show ?thesis
      using validate_all_Inr(1)[OF res] validate_all_fields(1)[OF res] by simp
  qed
  from 1 2 show ?thesis by blast
qed

theorem empty_valid_values_fail_every_value_witness:
  "dict_get (KStr (lit ''env''))
     [(KStr (lit ''env''), PDict [(KStr (lit ''valid_values''), PList [])])] =
     Some (PDict [(KStr (lit ''valid_values''), PList [])]) \<and>
   dict_get (KStr (lit ''valid_values'')) [(KStr (lit ''valid_values''), PList [])] =
     Some (PList []) \<and>
   validate_property
     (PDict [(KStr (lit ''env''), PDict [(KStr (lit ''valid_values''), PList [])])])
     (PStr (lit ''env'')) (PStr (lit ''dev'')) =
     Inr (Invalid [Lit ''Property '', Quoted (PStr (lit ''env'')),
                   Lit '' has invalid value '', Quoted (PStr (lit ''dev'')),
                   Lit ''. Valid values are: '', Val (PList [])]) \<and>
   validate_all_properties
     (PDict [(KStr (lit ''env''), PDict [(KStr (lit ''valid_values''), PList [])])])
     [(KStr (lit ''env''), PStr (lit ''dev''))] =
     Inr \<lparr>overall_valid = False,
          property_results =
            [(KStr (lit ''env''),
              Invalid [Lit ''Property '', Quoted (PStr (lit ''env'')),
                       Lit '' has invalid value '', Quoted (PStr (lit ''dev'')),
                       Lit ''. Valid values are: '', Val (PList [])])],
          missing_required = [],
          errors = [[Lit ''Property '', Quoted (PStr (lit ''env'')),
                     Lit '' has invalid value '', Quoted (PStr (lit ''dev'')),
                     Lit ''. Valid values are: '', Val (PList [])]],
          unknown_properties = []\<rparr>"
proof -
  let ?rule = "[(KStr (lit ''valid_values''), PList [])]"
  let ?rules = "[(KStr (lit ''env''), PDict ?rule)]"
  have 1: "dict_get (KStr (lit ''env'')) ?rules = Some (PDict ?rule)" by simp
  have 2: "dict_get (KStr (lit ''valid_values'')) ?rule = None \<or>
           dict_get (KStr (lit ''valid_values'')) ?rule = Some (PList [])" by simp
  have 3: "validate_all_properties (PDict ?rules) [(KStr (lit ''env''), PStr (lit ''dev''))] =
     Inr \<lparr>overall_valid = False,
          property_results =
            [(KStr (lit ''env''),
              Invalid [Lit ''Property '', Quoted (PStr (lit ''env'')),
                       Lit '' has invalid value '', Quoted (PStr (lit ''dev'')),
                       Lit ''. Valid values are: '', Val (PList [])])],
          missing_required = [],
          errors = [[Lit ''Property '', Quoted (PStr (lit ''env'')),
                     Lit '' has invalid value '', Quoted (PStr (lit ''dev'')),
                     Lit ''. Valid values are: '', Val (PList [])]],
          unknown_properties = []\<rparr>"
    by (simp add: validate_all_properties_def results0_def validate_property_def
          record_result_def)
  from empty_valid_values_fail_every_value[OF 1 2, of "PStr (lit ''dev'')"] 3
  show ?thesis by simp
qed

text \<open>
  C6. A property without a rule is listed among the unknown properties, gets no
  per-property result, and changes neither the errors nor the verdict: both are those
  of the PropertySet without it.
\<close>

theorem unknown_property_is_only_reported:
  assumes "dict_get k rules = None"
    and "rules_wf rules"
  shows "\<exists>res res'.
           validate_all_properties (PDict rules) (pre @ (k, v) # post) = Inr res \<and>
           validate_all_properties (PDict rules) (pre @ post) = Inr res' \<and>
           k \<in> set (unknown_properties res) \<and>
           k \<notin> fst ` set (property_results res) \<and>
           errors res = errors res' \<and>
           overall_valid res = overall_valid res'"
proof -
  from validate_all_total[OF assms(2)[unfolded rules_wf_def]] obtain res res' where
    res: "validate_all_properties (PDict rules) (pre @ (k, v) # post) = Inr res" and
    res': "validate_all_properties (PDict rules) (pre @ post) = Inr res'"
    by blast
  have 1: "k \<in> set (unknown_properties res)"
    unfolding validate_all_Inr(2)[OF res] using assms(1) by force
  have "fst ` set (property_results res) \<subseteq> {k. dict_get k rules \<noteq> None}"
    unfolding validate_all_fields(2)[OF res]
    using keys_step_results[of rules "[]" "pre @ (k, v) # post"]
    by (simp del: foldl_append)
  with assms(1) have 2: "k \<notin> fst ` set (property_results res)"
    by blast
  have 3: "errors res = errors res'"
    unfolding validate_all_fields(1)[OF res] validate_all_fields(1)[OF res']
    using assms(1) by (simp add: step_errors_def)
  have 4: "overall_valid res = overall_valid res'"
    unfolding validate_all_Inr(1)[OF res] validate_all_Inr(1)[OF res']
    by (rule verdict_without_unknown[OF assms(1)])
  from res res' 1 2 3 4 show ?thesis by blast
qed

theorem unknown_property_is_only_reported_witness:
  "dict_get (KStr (lit ''extra'')) example_rules = None \<and>
   rules_wf example_rules \<and>
   (\<exists>res res'.
      validate_all_properties (PDict example_rules)
        ([(KStr (lit ''env''), PStr (lit ''prod''))] @
         (KStr (lit ''extra''), PStr (lit ''x'')) # []) = Inr res \<and>
      validate_all_properties (PDict example_rules)
        ([(KStr (lit ''env''), PStr (lit ''prod''))] @ []) = Inr res' \<and>
      KStr (lit ''extra'') \<in> set (unknown_properties res) \<and>
      KStr (lit ''extra'') \<notin> fst ` set (property_results res) \<and>
      errors res = errors res' \<and>
      overall_valid res = overall_valid res')"
proof -
  have 1: "dict_get (KStr (lit ''extra'')) example_rules = None"
    by (simp add: example_rules_def)
  have 2: "rules_wf example_rules"
    by (simp add: example_rules_def rules_wf_def)
  from unknown_property_is_only_reported[OF 1 2] 1 2 show ?thesis by blast
qed

text \<open>
  C9. A rule document that is a mapping without the key \<^verbatim>\<open>validation_rules\<close> gives
  the empty rule mapping: nothing is missing, every provided property is unknown, the
  verdict is valid and the exit status is 0.
\<close>

theorem missing_validation_rules_key:
  assumes "dict_get (KStr (lit ''validation_rules'')) cfg = None"
    and "load_properties_from_json properties_file properties_loaded = Inr properties"
  shows "init config (Inr (PDict cfg)) = Inr (PDict []) \<and>
         validate_all_properties (PDict []) properties =
           Inr \<lparr>overall_valid = True, property_results = [], missing_required = [],
                errors = [], unknown_properties = map fst properties\<rparr> \<and>
         status (validate_main config properties_file (Inr (PDict cfg)) properties_loaded) = 0"
proof -
  have i: "init config (Inr (PDict cfg)) = Inr (PDict [])"
    using assms(1) by (simp add: init_def load_config_def)
  have "validate_provided (PDict []) ps res0 =
          Inr (res0\<lparr>unknown_properties := unknown_properties res0 @ map fst ps\<rparr>)" for ps res0
    by (induction ps arbitrary: res0) auto
  then have v: "validate_all_properties (PDict []) properties =
           Inr \<lparr>overall_valid = True, property_results = [], missing_required = [],
                errors = [], unknown_properties = map fst properties\<rparr>"
    by (simp add: validate_all_properties_def results0_def)
  from validate_main_status[OF i assms(2) v] i v show ?thesis by simp
qed

theorem missing_validation_rules_key_witness:
  "dict_get (KStr (lit ''validation_rules'')) [(KStr (lit ''rules''), PDict example_rules)] = None \<and>
   load_properties_from_json (lit ''p.json'')
       (Inr (PDict [(KStr (lit ''env''), PStr (lit ''prod''))])) =
     Inr [(KStr (lit ''env''), PStr (lit ''prod''))] \<and>
   init (lit ''rules.yaml'') (Inr (PDict [(KStr (lit ''rules''), PDict example_rules)])) =
     Inr (PDict []) \<and>
   validate_all_properties (PDict []) [(KStr (lit ''env''), PStr (lit ''prod''))] =
     Inr \<lparr>overall_valid = True, property_results = [], missing_required = [],
          errors = [], unknown_properties = [KStr (lit ''env'')]\<rparr> \<and>
   status (validate_main (lit ''rules.yaml'') (lit ''p.json'')
             (Inr (PDict [(KStr (lit ''rules''), PDict example_rules)]))
             (Inr (PDict [(KStr (lit ''env''), PStr (lit ''prod''))]))) = 0"
proof -
  have 1: "dict_get (KStr (lit ''validation_rules''))
             [(KStr (lit ''rules''), PDict example_rules)] = None"
    by simp
  have 2: "load_properties_from_json (lit ''p.json'')
       (Inr (PDict [(KStr (lit ''env''), PStr (lit ''prod''))])) =
     Inr [(KStr (lit ''env''), PStr (lit ''prod''))]"
    by (simp add: load_properties_from_json_def)
  from missing_validation_rules_key[OF 1 2, of "lit ''rules.yaml''"] 1 2 show ?thesis by simp
qed

section \<open>The extractor: loops and formats\<close>

lemma extract_main_empty:
  "extract_body data = Inr [] \<Longrightarrow>
   extract_main y f out v (Inr data) =
     \<lparr>status = 0, stdout = [],
      stderr = (if v then [[Lit ''Extracting properties from: '', Val (PStr y)]] else []) @
               [[Lit ''No properties found in additionalProperties section'']],
      written = []\<rparr>"
  by (simp add: extract_main_def extract_properties_from_yaml_def)

lemma extract_main_raise:
  "extract_body data = Inl TypeError \<Longrightarrow>
   extract_main y f out v (Inr data) =
     \<lparr>status = 1, stdout = [],
      stderr = (if v then [[Lit ''Extracting properties from: '', Val (PStr y)]] else []) @
               [[Lit ''Error: '', Exc TypeError]],
      written = []\<rparr>"
  by (simp add: extract_main_def extract_properties_from_yaml_def handle_def)

lemma extract_body_list:
  "extract_body (PList xs) =
     (if list_ex (py_eq (PStr (lit ''data''))) xs then Inl TypeError else Inr [])"
  by (simp add: extract_body_def)

lemma extract_body_str:
  "extract_body (PStr s) = (if sublist (lit ''data'') s then Inl TypeError else Inr [])"
  by (simp add: extract_body_def)

lemma key_eq_KStr [simp]: "key_eq (KStr s) k \<longleftrightarrow> k = KStr s"
  by (cases k) auto

lemma dict_get_str_None: "dict_get (KStr s) d = None \<longleftrightarrow> KStr s \<notin> set (map fst d)"
  by (induction d) (auto split: if_splits)

lemma dict_get_dict_set_str:
  "dict_get (KStr n) (dict_set (KStr m) v d) = (if n = m then Some v else dict_get (KStr n) d)"
  by (induction d) auto

lemma extract_records_skip:
  assumes "dict_get (KStr (lit ''name'')) r = None \<or> dict_get (KStr (lit ''value'')) r = None"
  shows "extract_records (pre @ PDict r # post) acc = extract_records (pre @ post) acc"
proof (induction pre arbitrary: acc)
  case Nil
  obtain b where b: "py_in (PStr (lit ''name'')) (PDict r) = Inr b" by simp
  have "\<not> b \<or> py_in (PStr (lit ''value'')) (PDict r) = Inr False"
    using assms b by auto
  with b show ?case
    by (cases b) (auto simp del: py_in.simps)
next
  case (Cons item pre)
  then show ?case
    by (simp split: sum.splits bool.splits)
qed

lemma extract_records_store:
  "all_records items \<Longrightarrow>
   extract_records items acc = Inr (foldl store acc (pairs_of items))"
proof (induction items arbitrary: acc)
  case Nil
  then show ?case by (simp add: pairs_of_def)
next
  case (Cons item items)
  from Cons.prems obtain n v where p: "record_pair item = Some (n, v)"
    by (auto simp: all_records_def)
  then obtain r where r: "item = PDict r" "dict_get (KStr (lit ''name'')) r = Some (PStr n)"
    "dict_get (KStr (lit ''value'')) r = Some v"
    by (cases item) (auto split: option.splits pyval.splits)
  from Cons.prems have "all_records items" by (simp add: all_records_def)
  from Cons.IH[OF this] r p show ?case
    by (simp add: py_setitem_def pairs_of_def store_def)
qed

lemma dict_get_foldl_store:
  "dict_get (KStr n) (foldl store acc ps) =
     (case map_of (rev ps) n of None \<Rightarrow> dict_get (KStr n) acc | Some v \<Rightarrow> Some v)"
proof (induction ps arbitrary: acc)
  case Nil
  then show ?case by simp
next
  case (Cons p ps)
  obtain m v where p: "p = (m, v)" by (cases p)
  show ?case
    unfolding foldl_Cons Cons.IH p
    by (auto simp: store_def dict_get_dict_set_str map_of_append split: option.splits)
qed

lemma str_keys_store:
  assumes "str_keys d"
  shows "str_keys (store d p) \<and> set (map fst (store d p)) = insert (KStr (fst p)) (set (map fst d))"
proof (cases "dict_get (KStr (fst p)) d = None")
  case True
  then have "KStr (fst p) \<notin> set (map fst d)" by (simp add: dict_get_str_None)
  with assms True show ?thesis
    by (auto simp: str_keys_def store_def map_fst_dict_set simp del: set_map)
next
  case False
  then have "KStr (fst p) \<in> set (map fst d)" by (simp add: dict_get_str_None)
  with assms False show ?thesis
    by (auto simp: str_keys_def store_def map_fst_dict_set simp del: set_map)
qed

lemma str_keys_foldl_store:
  "str_keys d \<Longrightarrow>
   str_keys (foldl store d ps) \<and>
   set (map fst (foldl store d ps)) = set (map fst d) \<union> KStr ` set (map fst ps)"
proof (induction ps arbitrary: d)
  case Nil
  then show ?case by simp
next
  case (Cons p ps)
  from str_keys_store[OF Cons.prems, of p] Cons.IH[of "store d p"]
  show ?case by auto
qed

lemma length_foldl_store: "length (foldl store [] ps) = card (set (map fst ps))"
proof -
  have s: "str_keys []" by (simp add: str_keys_def)
  from str_keys_foldl_store[OF s, of ps]
  have d: "distinct (map fst (foldl store [] ps))"
    and k: "set (map fst (foldl store [] ps)) = KStr ` set (map fst ps)"
    by (simp_all add: str_keys_def)
  have "length (foldl store [] ps) = length (map fst (foldl store [] ps))" by simp
  also have "\<dots> = card (set (map fst (foldl store [] ps)))"
    using d by (rule distinct_card[symmetric])
  also have "\<dots> = card (set (map fst ps))"
    unfolding k by (rule card_image) (simp add: inj_on_def)
  finally show ?thesis .
qed

lemma extract_body_at:
  assumes "dict_get (KStr (lit ''data'')) doc = Some (PDict d)"
    and "dict_get (KStr (lit ''additionalProperties'')) d = Some (PList items)"
  shows "extract_body (PDict doc) = extract_records items []"
  using assms by (simp add: extract_body_def)




lemma upper_append: "upper (a @ b) = upper a @ upper b"
  by (simp add: upper_def)

lemma upper_cp:
  assumes "c < 128"
  shows "upper (cp_upper c) = upper (cp_lower c)"
  using assms by (auto simp: upper_def cp_upper_def cp_lower_def)

lemma upper_upper_lower: "\<forall>c \<in> set s. c < 128 \<Longrightarrow> upper (upper s) = upper (lower s)"
proof (induction s)
  case Nil
  then show ?case by (simp add: upper_def lower_def)
next
  case (Cons c s)
  have "upper (upper (c # s)) = upper (cp_upper c) @ upper (upper s)"
    by (simp add: upper_def)
  moreover have "upper (lower (c # s)) = upper (cp_lower c) @ upper (lower s)"
    by (simp add: upper_def lower_def)
  ultimately show ?case
    using Cons upper_cp[of c] by simp
qed

lemma assigned_keys_last: "assigned_keys [Val (PStr k), Lit ''='', Val v] = [k]"
  by (cases v) simp_all

lemma assigned_keys_line:
  "assigned_keys ([Val (PStr k), Lit ''='', Val v] @ Lit ''\<newline>'' # rest) =
     k # assigned_keys rest"
  by (cases v) simp_all

lemma join_lines_Cons:
  "join_lines (l # ls) = (if ls = [] then l else l @ Lit ''\<newline>'' # join_lines ls)"
  by (cases ls) simp_all

lemma assignments_keys:
  assumes "\<And>s. f (KStr s) = Inr (g s)"
  shows "\<forall>kv \<in> set d. is_str_key (fst kv) \<Longrightarrow>
         \<exists>ls. assignments f d = Inr ls \<and> (ls = [] \<longleftrightarrow> d = []) \<and>
              assigned_keys (join_lines ls) = map g (names_of d)"
proof (induction d)
  case Nil
  then show ?case by (simp add: names_of_def)
next
  case (Cons kv d)
  obtain k v where kv: "kv = (k, v)" by (cases kv)
  with Cons.prems obtain s where s: "k = KStr s" by (cases k) auto
  from Cons obtain ls where
    ls: "assignments f d = Inr ls" "ls = [] \<longleftrightarrow> d = []"
        "assigned_keys (join_lines ls) = map g (names_of d)"
    by auto
  let ?l = "[Val (PStr (g s)), Lit ''='', Val v]"
  have a: "assignments f (kv # d) = Inr (?l # ls)"
    using ls(1) kv s assms by simp
  have n: "names_of (kv # d) = s # names_of d"
    using kv s by (simp add: names_of_def)
  have "assigned_keys (join_lines (?l # ls)) = g s # map g (names_of d)"
  proof (cases "ls = []")
    case True
    with ls(2) have "names_of d = []" by (simp add: names_of_def)
    with True show ?thesis
      using assigned_keys_last[of "g s" v] by simp
  next
    case False
    then have "join_lines (?l # ls) = ?l @ Lit ''\<newline>'' # join_lines ls"
      by (simp only: join_lines_Cons if_False)
    then show ?thesis
      using assigned_keys_line[of "g s" v "join_lines ls"] ls(3) by simp
  qed
  with a n show ?case by simp
qed

section \<open>The extractor and the load failures: claims\<close>

text \<open>
  C3, as the code has it. A missing file or a parse error ends either script at once
  with exit status 1 and one diagnostic line. The extractor writes the line to the error
  stream (after the verbose notice, if asked for); the validator prints it, as a
  \<^verbatim>\<open>::error::\<close> annotation, to standard output and leaves the error stream empty.
\<close>

theorem fatal_load_failures:
  "extract_main y f out v (Inl FileNotFoundError) =
     \<lparr>status = 1, stdout = [],
      stderr = (if v then [[Lit ''Extracting properties from: '', Val (PStr y)]] else []) @
               [[Lit ''Error: File not found: '', Val (PStr y)]],
      written = []\<rparr> \<and>
   extract_main y f out v (Inl (YAMLError m)) =
     \<lparr>status = 1, stdout = [],
      stderr = (if v then [[Lit ''Extracting properties from: '', Val (PStr y)]] else []) @
               [[Lit ''Error parsing YAML file: '', Exc (YAMLError m)]],
      written = []\<rparr> \<and>
   validate_main c p (Inl FileNotFoundError) pl =
     \<lparr>status = 1,
      stdout = [[Lit ''::error::Configuration file '', Quoted (PStr c), Lit '' not found'']],
      stderr = [], written = []\<rparr> \<and>
   validate_main c p (Inl (YAMLError m)) pl =
     \<lparr>status = 1,
      stdout = [[Lit ''::error::Invalid YAML in configuration file: '', Exc (YAMLError m)]],
      stderr = [], written = []\<rparr> \<and>
   validate_main c p (Inr (PDict cfg)) (Inl FileNotFoundError) =
     \<lparr>status = 1,
      stdout = [[Lit ''::error::Properties file '', Quoted (PStr p), Lit '' not found'']],
      stderr = [], written = []\<rparr> \<and>
   validate_main c p (Inr (PDict cfg)) (Inl (JSONDecodeError m)) =
     \<lparr>status = 1,
      stdout = [[Lit ''::error::Invalid JSON in properties file: '', Exc (JSONDecodeError m)]],
      stderr = [], written = []\<rparr>"
  by (simp add: extract_main_def extract_properties_from_yaml_def handle_def
        validate_main_def init_def load_config_def load_properties_from_json_def)

text \<open>
  C3 as stated fails for the validator: with the rule document missing, the error
  stream stays empty and the diagnostic is on standard output.
\<close>

theorem validator_diagnostic_not_on_stderr:
  "stderr (validate_main (lit ''rules.yaml'') (lit ''p.json'') (Inl FileNotFoundError)
             (Inr (PDict []))) = [] \<and>
   stdout (validate_main (lit ''rules.yaml'') (lit ''p.json'') (Inl FileNotFoundError)
             (Inr (PDict []))) =
     [[Lit ''::error::Configuration file '', Quoted (PStr (lit ''rules.yaml'')),
       Lit '' not found'']]"
  by (simp add: validate_main_def init_def load_config_def)

text \<open>
  C4, as the code has it. For a document whose \<^verbatim>\<open>additionalProperties\<close> holds N
  records with a string name and a value, the extractor returns a PropertySet with one
  entry for each distinct name (so N entries when the names differ from each other),
  and every name maps to the value of the last record that carries it.
\<close>

theorem extracted_property_set:
  assumes "dict_get (KStr (lit ''data'')) doc = Some (PDict d)"
    and "dict_get (KStr (lit ''additionalProperties'')) d = Some (PList items)"
    and "all_records items"
  shows "\<exists>properties.
           extract_body (PDict doc) = Inr properties \<and>
           length properties = card (set (map fst (pairs_of items))) \<and>
           (\<forall>n. dict_get (KStr n) properties = map_of (rev (pairs_of items)) n) \<and>
           (distinct (map fst (pairs_of items)) \<longrightarrow> length properties = length items)"
proof -
  let ?ps = "foldl store [] (pairs_of items)"
  have b: "extract_body (PDict doc) = Inr ?ps"
    using extract_body_at[OF assms(1,2)] extract_records_store[OF assms(3)] by simp
  have l: "length ?ps = card (set (map fst (pairs_of items)))"
    by (rule length_foldl_store)
  have g: "dict_get (KStr n) ?ps = map_of (rev (pairs_of items)) n" for n
    unfolding dict_get_foldl_store by (simp split: option.splits)
  have "length ?ps = length items" if "distinct (map fst (pairs_of items))"
    using l distinct_card[OF that] by (simp add: pairs_of_def)
  with b l g show ?thesis by blast
qed

theorem extracted_property_set_witness:
  "dict_get (KStr (lit ''data''))
     [(KStr (lit ''data''),
       PDict [(KStr (lit ''additionalProperties''),
               PList [named ''env'' ''dev'', named ''team'' ''core''])])] =
     Some (PDict [(KStr (lit ''additionalProperties''),
                   PList [named ''env'' ''dev'', named ''team'' ''core''])]) \<and>
   dict_get (KStr (lit ''additionalProperties''))
     [(KStr (lit ''additionalProperties''),
       PList [named ''env'' ''dev'', named ''team'' ''core''])] =
     Some (PList [named ''env'' ''dev'', named ''team'' ''core'']) \<and>
   all_records [named ''env'' ''dev'', named ''team'' ''core''] \<and>
   distinct (map fst (pairs_of [named ''env'' ''dev'', named ''team'' ''core''])) \<and>
   (\<exists>properties.
      extract_body (document_with [named ''env'' ''dev'', named ''team'' ''core'']) =
        Inr properties \<and>
      length properties = 2 \<and>
      dict_get (KStr (lit ''env'')) properties = Some (PStr (lit ''dev'')))"
proof -
  let ?items = "[named ''env'' ''dev'', named ''team'' ''core'']"
  have 1: "dict_get (KStr (lit ''data''))
     [(KStr (lit ''data''), PDict [(KStr (lit ''additionalProperties''), PList ?items)])] =
     Some (PDict [(KStr (lit ''additionalProperties''), PList ?items)])"
    by simp
  have 2: "dict_get (KStr (lit ''additionalProperties''))
     [(KStr (lit ''additionalProperties''), PList ?items)] = Some (PList ?items)"
    by simp
  have 3: "all_records ?items"
    by (simp add: all_records_def named_def)
  have 4: "pairs_of ?items = [(lit ''env'', PStr (lit ''dev'')), (lit ''team'', PStr (lit ''core''))]"
    by (simp add: pairs_of_def named_def)
  have 5: "distinct (map fst (pairs_of ?items))"
    unfolding 4 by simp
  from extracted_property_set[OF 1 2 3] 5 obtain properties where
    p: "extract_body (document_with ?items) = Inr properties"
       "length properties = length ?items"
       "dict_get (KStr (lit ''env'')) properties = map_of (rev (pairs_of ?items)) (lit ''env'')"
    unfolding document_with_def by blast
  from p(3) have "dict_get (KStr (lit ''env'')) properties = Some (PStr (lit ''dev''))"
    unfolding 4 by simp
  with p(1,2) 1 2 3 5 show ?thesis by auto
qed

text \<open>
  C4 as stated fails when two records share a name: two records give a PropertySet of
  size one.
\<close>

theorem duplicate_names_collapse:
  "all_records [named ''env'' ''dev'', named ''env'' ''prod''] \<and>
   length [named ''env'' ''dev'', named ''env'' ''prod''] = 2 \<and>
   extract_body (document_with [named ''env'' ''dev'', named ''env'' ''prod'']) =
     Inr [(KStr (lit ''env''), PStr (lit ''prod''))] \<and>
   length [(KStr (lit ''env''), PStr (lit ''prod''))] = 1"
  by (simp add: all_records_def named_def document_with_def extract_body_def py_setitem_def)

text \<open>
  C5, as the code has it. For a document that is a mapping: a record (a mapping)
  without \<^verbatim>\<open>name\<close> or without \<^verbatim>\<open>value\<close> is skipped, the result being that of
  the list without it; and when the key \<^verbatim>\<open>data\<close> is absent, or is a mapping
  without \<^verbatim>\<open>additionalProperties\<close>, the PropertySet is empty and the exit status 0.
\<close>

theorem tolerant_extraction:
  "(dict_get (KStr (lit ''name'')) r = None \<or> dict_get (KStr (lit ''value'')) r = None \<longrightarrow>
      extract_records (pre @ PDict r # post) acc = extract_records (pre @ post) acc) \<and>
   (dict_get (KStr (lit ''data'')) doc = None \<longrightarrow>
      extract_body (PDict doc) = Inr [] \<and>
      status (extract_main y f out v (Inr (PDict doc))) = 0) \<and>
   (dict_get (KStr (lit ''data'')) doc = Some (PDict d) \<and>
    dict_get (KStr (lit ''additionalProperties'')) d = None \<longrightarrow>
      extract_body (PDict doc) = Inr [] \<and>
      status (extract_main y f out v (Inr (PDict doc))) = 0)"
proof -
  have a: "extract_body (PDict doc) = Inr []" if "dict_get (KStr (lit ''data'')) doc = None"
    using that by (simp add: extract_body_def)
  have b: "extract_body (PDict doc) = Inr []"
    if "dict_get (KStr (lit ''data'')) doc = Some (PDict d)"
      "dict_get (KStr (lit ''additionalProperties'')) d = None"
    using that by (simp add: extract_body_def)
  have c: "status (extract_main y f out v (Inr (PDict doc))) = 0"
    if "extract_body (PDict doc) = Inr []"
    using extract_main_empty[OF that] by simp
  from a b c extract_records_skip show ?thesis by blast
qed

theorem tolerant_extraction_witness:
  "extract_records ([named ''env'' ''dev''] @ PDict [(KStr (lit ''name''), PStr (lit ''x''))] # [])
     [] = extract_records ([named ''env'' ''dev''] @ []) [] \<and>
   extract_records [named ''env'' ''dev'', PDict [(KStr (lit ''name''), PStr (lit ''x''))]] [] =
     Inr [(KStr (lit ''env''), PStr (lit ''dev''))] \<and>
   extract_body (PDict [(KStr (lit ''id''), PInt 7)]) = Inr [] \<and>
   status (extract_main (lit ''api.yaml'') (lit ''json'') PNone False
             (Inr (PDict [(KStr (lit ''id''), PInt 7)]))) = 0 \<and>
   extract_body (PDict [(KStr (lit ''data''), PDict [(KStr (lit ''id''), PInt 7)])]) = Inr [] \<and>
   status (extract_main (lit ''api.yaml'') (lit ''json'') PNone False
             (Inr (PDict [(KStr (lit ''data''), PDict [(KStr (lit ''id''), PInt 7)])]))) = 0"
proof -
  have 1: "dict_get (KStr (lit ''name'')) [(KStr (lit ''name''), PStr (lit ''x''))] = None \<or>
           dict_get (KStr (lit ''value'')) [(KStr (lit ''name''), PStr (lit ''x''))] = None"
    by simp
  have 2: "dict_get (KStr (lit ''data'')) [(KStr (lit ''id''), PInt 7)] = None"
    by simp
  have 3: "dict_get (KStr (lit ''data''))
             [(KStr (lit ''data''), PDict [(KStr (lit ''id''), PInt 7)])] =
           Some (PDict [(KStr (lit ''id''), PInt 7)]) \<and>
           dict_get (KStr (lit ''additionalProperties'')) [(KStr (lit ''id''), PInt 7)] = None"
    by simp
  have 4: "extract_records [named ''env'' ''dev''] [] =
             Inr [(KStr (lit ''env''), PStr (lit ''dev''))]"
    by (simp add: named_def py_setitem_def)
  from tolerant_extraction[of "[(KStr (lit ''name''), PStr (lit ''x''))]"
         "[named ''env'' ''dev'']" "[]" "[]" "[(KStr (lit ''id''), PInt 7)]"
         "lit ''api.yaml''" "lit ''json''" PNone False]
       tolerant_extraction[of "[(KStr (lit ''name''), PStr (lit ''x''))]"
         "[named ''env'' ''dev'']" "[]" "[]"
         "[(KStr (lit ''data''), PDict [(KStr (lit ''id''), PInt 7)])]"
         "lit ''api.yaml''" "lit ''json''" PNone False "[(KStr (lit ''id''), PInt 7)]"]
       1 2 3 4
  show ?thesis by simp
qed

text \<open>
  C5 as stated fails for a parseable document whose \<^verbatim>\<open>data\<close> is null: the nested
  location is absent, and the extractor exits with 1.
\<close>

theorem null_data_section_is_an_error:
  "extract_body (PDict [(KStr (lit ''data''), PNone)]) = Inl TypeError \<and>
   extract_main (lit ''api.yaml'') (lit ''json'') PNone False
     (Inr (PDict [(KStr (lit ''data''), PNone)])) =
     \<lparr>status = 1, stdout = [], stderr = [[Lit ''Error: '', Exc TypeError]], written = []\<rparr>"
  by (simp add: extract_main_def extract_properties_from_yaml_def extract_body_def handle_def)




text \<open>
  C8, as the code has it. For a PropertySet whose names are ASCII strings, the
  \<^verbatim>\<open>env\<close> output carries the upper-cased names, the \<^verbatim>\<open>github\<close> output the
  lower-cased ones, one for each property, and upper-casing both gives the same
  multiset.
\<close>

theorem env_and_github_keys:
  assumes "ascii_names properties"
  shows "\<exists>e g. output_content properties (lit ''env'') = Inr e \<and>
               output_content properties (lit ''github'') = Inr g \<and>
               assigned_keys e = map upper (names_of properties) \<and>
               assigned_keys g = map lower (names_of properties) \<and>
               length (names_of properties) = length properties \<and>
               mset (map upper (assigned_keys e)) = mset (map upper (assigned_keys g))"
proof -
  have str: "\<forall>kv \<in> set properties. is_str_key (fst kv)"
  proof
    fix kv assume "kv \<in> set properties"
    with assms show "is_str_key (fst kv)"
      by (cases "fst kv") (auto simp: ascii_names_def)
  qed
  from assignments_keys[of key_upper upper, OF _ str] obtain us where
    us: "assignments key_upper properties = Inr us"
        "assigned_keys (join_lines us) = map upper (names_of properties)"
    by auto
  from assignments_keys[of key_lower lower, OF _ str] obtain ls where
    ls: "assignments key_lower properties = Inr ls"
        "assigned_keys (join_lines ls) = map lower (names_of properties)"
    by auto
  have e: "output_content properties (lit ''env'') = Inr (join_lines us)"
    using us(1) by (simp add: output_content_def)
  have g: "output_content properties (lit ''github'') = Inr (join_lines ls)"
    using ls(1) by (simp add: output_content_def)
  have len: "length (names_of properties) = length properties"
    using str
  proof (induction properties)
    case Nil
    then show ?case by (simp add: names_of_def)
  next
    case (Cons kv d)
    then obtain s where "fst kv = KStr s" by (cases "fst kv") auto
    with Cons show ?case by (simp add: names_of_def)
  qed
  have asc: "\<forall>c \<in> set s. c < 128" if "s \<in> set (names_of properties)" for s
    using that assms by (auto simp: names_of_def ascii_names_def split: pykey.splits)
  have "map upper (map upper (names_of properties)) = map upper (map lower (names_of properties))"
    using asc upper_upper_lower by simp
  then have "mset (map upper (assigned_keys (join_lines us))) =
             mset (map upper (assigned_keys (join_lines ls)))"
    unfolding us(2) ls(2) by (rule arg_cong)
  with e g us(2) ls(2) len show ?thesis by blast
qed

theorem env_and_github_keys_witness:
  "ascii_names [(KStr (lit ''Env''), PStr (lit ''dev'')), (KStr (lit ''team''), PInt 3)] \<and>
   output_content [(KStr (lit ''Env''), PStr (lit ''dev'')), (KStr (lit ''team''), PInt 3)]
       (lit ''env'') =
     Inr [Val (PStr (lit ''ENV'')), Lit ''='', Val (PStr (lit ''dev'')), Lit ''\<newline>'',
          Val (PStr (lit ''TEAM'')), Lit ''='', Val (PInt 3)] \<and>
   output_content [(KStr (lit ''Env''), PStr (lit ''dev'')), (KStr (lit ''team''), PInt 3)]
       (lit ''github'') =
     Inr [Val (PStr (lit ''env'')), Lit ''='', Val (PStr (lit ''dev'')), Lit ''\<newline>'',
          Val (PStr (lit ''team'')), Lit ''='', Val (PInt 3)] \<and>
   mset (map upper (assigned_keys
           [Val (PStr (lit ''ENV'')), Lit ''='', Val (PStr (lit ''dev'')), Lit ''\<newline>'',
            Val (PStr (lit ''TEAM'')), Lit ''='', Val (PInt 3)])) =
   mset (map upper (assigned_keys
           [Val (PStr (lit ''env'')), Lit ''='', Val (PStr (lit ''dev'')), Lit ''\<newline>'',
            Val (PStr (lit ''team'')), Lit ''='', Val (PInt 3)]))"
proof -
  let ?d = "[(KStr (lit ''Env''), PStr (lit ''dev'')), (KStr (lit ''team''), PInt 3)]"
  have 1: "ascii_names ?d"
    by (simp add: ascii_names_def lit_def)
  have 2: "output_content ?d (lit ''env'') =
     Inr [Val (PStr (lit ''ENV'')), Lit ''='', Val (PStr (lit ''dev'')), Lit ''\<newline>'',
          Val (PStr (lit ''TEAM'')), Lit ''='', Val (PInt 3)]"
    by (simp add: output_content_def upper_def cp_upper_def lit_def)
  have 3: "output_content ?d (lit ''github'') =
     Inr [Val (PStr (lit ''env'')), Lit ''='', Val (PStr (lit ''dev'')), Lit ''\<newline>'',
          Val (PStr (lit ''team'')), Lit ''='', Val (PInt 3)]"
    by (simp add: output_content_def lower_def cp_lower_def lit_def)
  from env_and_github_keys[OF 1] 1 2 3 show ?thesis by auto
qed

text \<open>
  C8 as stated fails beyond ASCII: the name U+212A is written as itself by
  \<^verbatim>\<open>env\<close> and as the letter k by \<^verbatim>\<open>github\<close>, whose upper case is the
  ASCII letter K.
\<close>

theorem kelvin_sign_name:
  "output_content [(KStr [8490], PStr (lit ''x''))] (lit ''env'') =
     Inr [Val (PStr [8490]), Lit ''='', Val (PStr (lit ''x''))] \<and>
   output_content [(KStr [8490], PStr (lit ''x''))] (lit ''github'') =
     Inr [Val (PStr [107]), Lit ''='', Val (PStr (lit ''x''))] \<and>
   map upper (assigned_keys [Val (PStr [8490]), Lit ''='', Val (PStr (lit ''x''))]) = [[8490]] \<and>
   map upper (assigned_keys [Val (PStr [107]), Lit ''='', Val (PStr (lit ''x''))]) = [[75]] \<and>
   mset [[8490 :: nat]] \<noteq> mset [[75]]"
  by (simp add: output_content_def upper_def lower_def cp_upper_def cp_lower_def lit_def)

text \<open>
  C10, as the code has it. A document that is null, a boolean or an integer makes the
  membership test raise: the handler prints to the error stream and the exit status is
  1. A sequence or a string is searched without error: the extractor ends with the
  empty PropertySet and status 0, unless the sequence holds the element
  \<^verbatim>\<open>'data'\<close> (the string contains it), where the subscript raises and the status
  is 1.
\<close>

theorem non_mapping_documents:
  "extract_main y f out v (Inr PNone) =
     \<lparr>status = 1, stdout = [],
      stderr = (if v then [[Lit ''Extracting properties from: '', Val (PStr y)]] else []) @
               [[Lit ''Error: '', Exc TypeError]],
      written = []\<rparr> \<and>
   extract_main y f out v (Inr (PBool b)) =
     \<lparr>status = 1, stdout = [],
      stderr = (if v then [[Lit ''Extracting properties from: '', Val (PStr y)]] else []) @
               [[Lit ''Error: '', Exc TypeError]],
      written = []\<rparr> \<and>
   extract_main y f out v (Inr (PInt i)) =
     \<lparr>status = 1, stdout = [],
      stderr = (if v then [[Lit ''Extracting properties from: '', Val (PStr y)]] else []) @
               [[Lit ''Error: '', Exc TypeError]],
      written = []\<rparr> \<and>
   extract_main y f out v (Inr (PList xs)) =
     (if list_ex (py_eq (PStr (lit ''data''))) xs
      then \<lparr>status = 1, stdout = [],
            stderr = (if v then [[Lit ''Extracting properties from: '', Val (PStr y)]] else []) @
                     [[Lit ''Error: '', Exc TypeError]],
            written = []\<rparr>
      else \<lparr>status = 0, stdout = [],
            stderr = (if v then [[Lit ''Extracting properties from: '', Val (PStr y)]] else []) @
                     [[Lit ''No properties found in additionalProperties section'']],
            written = []\<rparr>) \<and>
   extract_main y f out v (Inr (PStr s)) =
     (if sublist (lit ''data'') s
      then \<lparr>status = 1, stdout = [],
            stderr = (if v then [[Lit ''Extracting properties from: '', Val (PStr y)]] else []) @
                     [[Lit ''Error: '', Exc TypeError]],
            written = []\<rparr>
      else \<lparr>status = 0, stdout = [],
            stderr = (if v then [[Lit ''Extracting properties from: '', Val (PStr y)]] else []) @
                     [[Lit ''No properties found in additionalProperties section'']],
            written = []\<rparr>)"
proof -
  have "extract_body PNone = Inl TypeError" "extract_body (PBool b) = Inl TypeError"
    "extract_body (PInt i) = Inl TypeError"
    by (simp_all add: extract_body_def)
  then show ?thesis
    using extract_main_raise extract_main_empty extract_body_list extract_body_str
    by simp
qed

text \<open>
  C10 as stated fails for a sequence: the empty sequence gives the empty PropertySet
  and exit status 0.
\<close>

theorem sequence_document_is_not_an_error:
  "extract_properties_from_yaml (lit ''api.yaml'') (Inr (PList [])) [] = Inr [] \<and>
   extract_main (lit ''api.yaml'') (lit ''json'') PNone False (Inr (PList [])) =
     \<lparr>status = 0, stdout = [],
      stderr = [[Lit ''No properties found in additionalProperties section'']],
      written = []\<rparr>"
  by (simp add: extract_main_def extract_properties_from_yaml_def extract_body_def)

end
